theory Spec2Isabelle
  imports Main "HOL-Library.Word"
begin

section \<open>Strings and values\<close>

text \<open>
  A string of the program is a sequence of UTF-16 code units: \<open>slice(0, n)\<close> keeps the first
  \<open>n\<close> code units and \<open>length\<close> counts them. \<open>asc\<close> writes an ASCII literal.
\<close>

type_synonym jstr = "16 word list"

definition asc :: "string \<Rightarrow> jstr" where
  "asc s = map of_char s"

text \<open>The code units that \<open>String.prototype.trim\<close> removes (white space and line terminators).\<close>

definition isSpace :: "16 word \<Rightarrow> bool" where
  "isSpace c \<longleftrightarrow>
     c \<in> set [0x9, 0xA, 0xB, 0xC, 0xD, 0x20, 0xA0, 0x1680, 0x2028, 0x2029, 0x202F, 0x205F, 0x3000, 0xFEFF]
     \<or> (0x2000 \<le> c \<and> c \<le> 0x200A)"

definition trim :: "jstr \<Rightarrow> jstr" where
  "trim s = rev (dropWhile isSpace (rev (dropWhile isSpace s)))"

text \<open>
  The values that \<open>JSON.parse\<close> returns, and \<open>undefined\<close> for a property that is not there.
  The program never computes with a number: it only tests one for truthiness and converts
  it with \<open>String\<close>, so a number is given by these two observations (\<open>JNum False (asc ''0'')\<close>
  is the number zero, \<open>JNum True (asc ''1.5'')\<close> is one and a half). An object is the list of
  its own properties.
\<close>

datatype jsval =
    JUndefined
  | JNull
  | JBool bool
  | JNum bool jstr
  | JStr jstr
  | JArr "jsval list"
  | JObj "(jstr \<times> jsval) list"

fun truthy :: "jsval \<Rightarrow> bool" where
  "truthy JUndefined = False"
| "truthy JNull = False"
| "truthy (JBool b) = b"
| "truthy (JNum t s) = t"
| "truthy (JStr s) = (s \<noteq> [])"
| "truthy (JArr xs) = True"
| "truthy (JObj kvs) = True"

text \<open>\<open>a || b\<close>\<close>

definition orElse :: "jsval \<Rightarrow> jsval \<Rightarrow> jsval" where
  "orElse a b = (if truthy a then a else b)"

text \<open>
  \<open>v?.k\<close> for the property names the program reads (id, name, emoji, cat, done, mode, cats,
  items, __completedOnce): none of them is defined on a prototype, so only an own property of
  an object gives a value.
\<close>

fun get :: "jsval \<Rightarrow> jstr \<Rightarrow> jsval" where
  "get (JObj kvs) k = (case map_of kvs k of Some v \<Rightarrow> v | None \<Rightarrow> JUndefined)"
| "get v k = JUndefined"

text \<open>
  \<open>String(v)\<close>. \<open>None\<close> is the TypeError that the conversion of an object to a primitive
  raises when the object has an own property \<open>toString\<close>: a parsed value is never callable,
  and \<open>Object.prototype.valueOf\<close> returns the object itself. An array is converted by
  \<open>join\<close>: the elements separated by commas, \<open>null\<close> and \<open>undefined\<close> as the empty string.
\<close>

fun toStr :: "jsval \<Rightarrow> jstr option"
  and joinElems :: "jsval list \<Rightarrow> jstr option" where
  "toStr JUndefined = Some (asc ''undefined'')"
| "toStr JNull = Some (asc ''null'')"
| "toStr (JBool b) = Some (if b then asc ''true'' else asc ''false'')"
| "toStr (JNum t s) = Some s"
| "toStr (JStr s) = Some s"
| "toStr (JArr xs) = joinElems xs"
| "toStr (JObj kvs) =
     (if asc ''toString'' \<in> fst ` set kvs then None else Some (asc ''[object Object]''))"
| "joinElems [] = Some []"
| "joinElems (x # xs) =
     (case (if x = JUndefined \<or> x = JNull then Some [] else toStr x) of
        None \<Rightarrow> None
      | Some s \<Rightarrow>
          if xs = [] then Some s
          else (case joinElems xs of None \<Rightarrow> None | Some r \<Rightarrow> Some (s @ asc '','' @ r)))"

section \<open>Data model\<close>

record category =
  cat_id :: jstr
  cat_name :: jstr
  cat_emoji :: "jstr option"

record item =
  item_id :: jstr
  item_cat :: jstr
  item_name :: jstr
  item_emoji :: "jstr option"
  item_done :: bool

record document =
  version :: int
  mode :: jstr
  cats :: "category list"
  items :: "item list"
  completedOnce :: bool

record settings =
  tripMode :: jstr
  motion :: bool
  sound :: bool
  streak :: int

definition DEFAULT_SETTINGS :: settings where
  "DEFAULT_SETTINGS = \<lparr>tripMode = asc ''salida'', motion = True, sound = True, streak = 0\<rparr>"

section \<open>Preset catalog (app.js)\<close>

record template =
  t_cat :: jstr
  t_name :: jstr
  t_emoji :: jstr

record preset =
  label :: jstr
  p_cats :: "category list"
  p_items :: "template list"

definition C :: "jstr \<Rightarrow> jstr \<Rightarrow> jstr \<Rightarrow> category" where
  "C i n e = \<lparr>cat_id = i, cat_name = n, cat_emoji = Some e\<rparr>"

definition T :: "jstr \<Rightarrow> jstr \<Rightarrow> jstr \<Rightarrow> template" where
  "T c n e = \<lparr>t_cat = c, t_name = n, t_emoji = e\<rparr>"

definition salida :: preset where
  "salida = \<lparr>
     label = [0xD83E, 0xDDF3] @ asc '' Salida'',
     p_cats = [
       C (asc ''tech'') (asc ''Tecnolog'' @ [0xED] @ asc ''a'') [0xD83D, 0xDD0C],
       C (asc ''docs'') (asc ''Documentos'') [0xD83E, 0xDEAA],
       C (asc ''ropa'') (asc ''Ropa'') [0xD83D, 0xDC55],
       C (asc ''hig'') (asc ''Higiene'') [0xD83E, 0xDDFC],
       C (asc ''otros'') (asc ''Otros'') [0x2728]],
     p_items = [
       T (asc ''tech'') (asc ''Cargador del celular'') [0xD83D, 0xDD0C],
       T (asc ''tech'') (asc ''Power bank'') [0xD83D, 0xDD0B],
       T (asc ''tech'') (asc ''Aud'' @ [0xED] @ asc ''fonos'') [0xD83C, 0xDFA7],
       T (asc ''docs'') (asc ''C'' @ [0xE9] @ asc ''dula / documento'') [0xD83E, 0xDEAA],
       T (asc ''docs'') (asc ''Tarjeta / efectivo'') [0xD83D, 0xDCB3],
       T (asc ''ropa'') (asc ''Chaqueta'') [0xD83E, 0xDDE5],
       T (asc ''hig'') (asc ''Desodorante'') [0xD83E, 0xDDF4],
       T (asc ''hig'') (asc ''Cepillo + crema'') [0xD83E, 0xDEA5],
       T (asc ''otros'') (asc ''Llaves'') [0xD83D, 0xDD11]]\<rparr>"

definition viaje :: preset where
  "viaje = \<lparr>
     label = [0x2708, 0xFE0F] @ asc '' Viaje'',
     p_cats = [
       C (asc ''tech'') (asc ''Tecnolog'' @ [0xED] @ asc ''a'') [0xD83D, 0xDD0C],
       C (asc ''docs'') (asc ''Documentos'') [0xD83E, 0xDDFE],
       C (asc ''salud'') (asc ''Salud'') [0xD83D, 0xDC8A],
       C (asc ''ropa'') (asc ''Ropa'') [0xD83E, 0xDDF3],
       C (asc ''otros'') (asc ''Otros'') [0x2728]],
     p_items = [
       T (asc ''docs'') (asc ''Pasaporte / ID'') [0xD83D, 0xDEC2],
       T (asc ''docs'') (asc ''Tiquetes / reservas'') [0xD83C, 0xDFAB],
       T (asc ''tech'') (asc ''Cargadores (todos)'') [0xD83D, 0xDD0C],
       T (asc ''tech'') (asc ''Adaptador'') [0xD83D, 0xDD01],
       T (asc ''salud'') (asc ''Medicinas'') [0xD83D, 0xDC8A],
       T (asc ''ropa'') (asc ''Medias extra'') [0xD83E, 0xDDE6]]\<rparr>"

definition gira :: preset where
  "gira = \<lparr>
     label = [0xD83C, 0xDFAD] @ asc '' Gira'',
     p_cats = [
       C (asc ''tech'') (asc ''Tech'') [0xD83D, 0xDD0C],
       C (asc ''audio'') (asc ''Audio'') [0xD83C, 0xDF9B, 0xFE0F],
       C (asc ''ropa'') (asc ''Ropa'') [0xD83D, 0xDC55],
       C (asc ''docs'') (asc ''Docs'') [0xD83E, 0xDEAA],
       C (asc ''otros'') (asc ''Otros'') [0x2728]],
     p_items = [
       T (asc ''audio'') (asc ''Micr'' @ [0xF3] @ asc ''fono / adaptadores'') [0xD83C, 0xDFA4],
       T (asc ''audio'') (asc ''Interfaces / cables'') [0xD83E, 0xDDF5],
       T (asc ''tech'') (asc ''Cargador laptop'') [0xD83D, 0xDCBB],
       T (asc ''tech'') (asc ''USB / backup'') [0xD83D, 0xDCBE],
       T (asc ''ropa'') (asc ''Outfit / cambio'') [0xD83D, 0xDC55],
       T (asc ''docs'') (asc ''Info del venue'') [0xD83D, 0xDCC4]]\<rparr>"

definition playa :: preset where
  "playa = \<lparr>
     label = [0xD83C, 0xDFD6, 0xFE0F] @ asc '' Playa'',
     p_cats = [
       C (asc ''ropa'') (asc ''Ropa'') [0xD83E, 0xDE73],
       C (asc ''sol'') (asc ''Sol'') [0xD83E, 0xDDF4],
       C (asc ''tech'') (asc ''Tech'') [0xD83D, 0xDCF1],
       C (asc ''otros'') (asc ''Otros'') [0x2728]],
     p_items = [
       T (asc ''sol'') (asc ''Bloqueador'') [0xD83E, 0xDDF4],
       T (asc ''sol'') (asc ''Gafas'') [0xD83D, 0xDD76, 0xFE0F],
       T (asc ''ropa'') (asc ''Vestido de ba'' @ [0xF1] @ asc ''o'') [0xD83D, 0xDC59],
       T (asc ''ropa'') (asc ''Toalla'') [0xD83E, 0xDDFB],
       T (asc ''tech'') (asc ''Cargador'') [0xD83D, 0xDD0C]]\<rparr>"

definition frio :: preset where
  "frio = \<lparr>
     label = [0x2744, 0xFE0F] @ asc '' Clima fr'' @ [0xED] @ asc ''o'',
     p_cats = [
       C (asc ''ropa'') (asc ''Ropa'') [0xD83E, 0xDDE5],
       C (asc ''salud'') (asc ''Salud'') [0xD83E, 0xDED6],
       C (asc ''tech'') (asc ''Tech'') [0xD83D, 0xDD0C],
       C (asc ''otros'') (asc ''Otros'') [0x2728]],
     p_items = [
       T (asc ''ropa'') (asc ''Chaqueta gruesa'') [0xD83E, 0xDDE5],
       T (asc ''ropa'') (asc ''Guantes'') [0xD83E, 0xDDE4],
       T (asc ''ropa'') (asc ''Gorro'') [0xD83E, 0xDDE2],
       T (asc ''salud'') (asc ''Humectante / labios'') [0xD83D, 0xDC84],
       T (asc ''tech'') (asc ''Cargador'') [0xD83D, 0xDD0C]]\<rparr>"

text \<open>The own properties of the object literal \<open>PRESETS\<close>.\<close>

definition PRESETS :: "jstr \<Rightarrow> preset option" where
  "PRESETS key =
     (if key = asc ''salida'' then Some salida
      else if key = asc ''viaje'' then Some viaje
      else if key = asc ''gira'' then Some gira
      else if key = asc ''playa'' then Some playa
      else if key = asc ''frio'' then Some frio
      else None)"

text \<open>
  \<open>PRESETS[mode]\<close> also finds what the object literal inherits from \<open>Object.prototype\<close>.
  Each of these members is truthy, so \<open>presetFor\<close> returns it and not the default preset; it
  has no \<open>cats\<close>.
\<close>

definition objectPrototypeKeys :: "jstr list" where
  "objectPrototypeKeys = map asc
     [''constructor'', ''__proto__'', ''hasOwnProperty'', ''isPrototypeOf'',
      ''propertyIsEnumerable'', ''toLocaleString'', ''toString'', ''valueOf'',
      ''__defineGetter__'', ''__defineSetter__'', ''__lookupGetter__'', ''__lookupSetter__'']"

datatype found = Entry preset | Inherited

definition presetFor :: "jstr \<Rightarrow> found" where
  "presetFor m =
     (case PRESETS m of
        Some p \<Rightarrow> Entry p
      | None \<Rightarrow> if m \<in> set objectPrototypeKeys then Inherited else Entry salida)"

text \<open>
  \<open>uid()\<close> is random digits followed by the clock, so the program cannot say which id it
  gets. The ids are a parameter: \<open>uid n\<close> is the id that the \<open>n\<close>-th call returns, and every
  function that draws ids takes the number of calls made so far and returns the new number.
\<close>

type_synonym idgen = "nat \<Rightarrow> jstr"

fun materialize :: "idgen \<Rightarrow> template list \<Rightarrow> nat \<Rightarrow> item list" where
  "materialize uid [] k = []"
| "materialize uid (x # xs) k =
     \<lparr>item_id = uid k, item_cat = t_cat x, item_name = t_name x,
      item_emoji = (if t_emoji x = [] then None else Some (t_emoji x)),
      item_done = False\<rparr> # materialize uid xs (Suc k)"

text \<open>
  \<open>newPreset(mode)\<close>. \<open>None\<close> is the TypeError of \<open>p.cats.map\<close> when \<open>presetFor\<close> returned an
  inherited member; it is raised before any id is drawn.
\<close>

definition newPreset :: "idgen \<Rightarrow> jstr \<Rightarrow> nat \<Rightarrow> document option \<times> nat" where
  "newPreset uid m k =
     (case presetFor m of
        Inherited \<Rightarrow> (None, k)
      | Entry p \<Rightarrow>
          (Some \<lparr>version = 2, mode = m, cats = p_cats p,
                 items = materialize uid (p_items p) k, completedOnce = False\<rparr>,
           k + length (p_items p)))"

section \<open>Repair engine (storage.js)\<close>

text \<open>
  A function of this section returns \<open>None\<close> when the source raises. Where ids may have been
  drawn before, the number of calls made is returned with it.
\<close>

text \<open>\<open>e ? String(e).slice(0, 4) : null\<close>\<close>

definition emojiOf :: "jsval \<Rightarrow> jstr option option" where
  "emojiOf e = (if truthy e then map_option (\<lambda>s. Some (take 4 s)) (toStr e) else Some None)"

definition repairCat :: "jsval \<Rightarrow> category option" where
  "repairCat c =
     (case toStr (orElse (get c (asc ''id'')) (JStr (asc ''otros''))) of
        None \<Rightarrow> None
      | Some i \<Rightarrow>
     (case toStr (orElse (get c (asc ''name'')) (JStr (asc ''Otros''))) of
        None \<Rightarrow> None
      | Some n \<Rightarrow>
     (case emojiOf (get c (asc ''emoji'')) of
        None \<Rightarrow> None
      | Some e \<Rightarrow>
          Some \<lparr>cat_id = (if trim i = [] then asc ''otros'' else trim i),
                cat_name = (if trim n = [] then asc ''Otros'' else trim n),
                cat_emoji = e\<rparr>)))"

text \<open>
  \<open>repairItem\<close> draws an id when the stored one is falsy; this is the first thing it does, so
  the id is drawn also when a later conversion raises.
\<close>

definition repairItem :: "idgen \<Rightarrow> jsval \<Rightarrow> nat \<Rightarrow> item option \<times> nat" where
  "repairItem uid it k =
     (let (i, k') = (if truthy (get it (asc ''id'')) then (toStr (get it (asc ''id'')), k)
                     else (Some (uid k), Suc k))
      in ((case i of
            None \<Rightarrow> None
          | Some i \<Rightarrow>
         (case toStr (orElse (get it (asc ''cat'')) (JStr (asc ''otros''))) of
            None \<Rightarrow> None
          | Some c \<Rightarrow>
         (case toStr (orElse (get it (asc ''name'')) (JStr (asc ''Sin nombre''))) of
            None \<Rightarrow> None
          | Some n \<Rightarrow>
         (case emojiOf (get it (asc ''emoji'')) of
            None \<Rightarrow> None
          | Some e \<Rightarrow>
              Some \<lparr>item_id = i, item_cat = c, item_name = take 80 n, item_emoji = e,
                    item_done = truthy (get it (asc ''done''))\<rparr>)))),
          k'))"

text \<open>\<open>xs.map(repairCat)\<close> and \<open>xs.map(repairItem)\<close>: in order, stopping at the first raise.\<close>

fun mapCats :: "jsval list \<Rightarrow> category list option" where
  "mapCats [] = Some []"
| "mapCats (x # xs) =
     (case repairCat x of
        None \<Rightarrow> None
      | Some c \<Rightarrow> (case mapCats xs of None \<Rightarrow> None | Some cs \<Rightarrow> Some (c # cs)))"

fun mapItems :: "idgen \<Rightarrow> jsval list \<Rightarrow> nat \<Rightarrow> item list option \<times> nat" where
  "mapItems uid [] k = (Some [], k)"
| "mapItems uid (x # xs) k =
     (case repairItem uid x k of
        (None, k') \<Rightarrow> (None, k')
      | (Some i, k') \<Rightarrow>
          (case mapItems uid xs k' of
             (None, k'') \<Rightarrow> (None, k'')
           | (Some is, k'') \<Rightarrow> (Some (i # is), k'')))"

text \<open>The loop that ensures unique ids; \<open>seen\<close> is the set of the ids passed so far.\<close>

fun uniqueIds :: "idgen \<Rightarrow> item list \<Rightarrow> jstr set \<Rightarrow> nat \<Rightarrow> item list \<times> nat" where
  "uniqueIds uid [] seen k = ([], k)"
| "uniqueIds uid (it # its) seen k =
     (if item_id it = [] \<or> item_id it \<in> seen
      then (let (r, k') = uniqueIds uid its (insert (uid k) seen) (Suc k)
            in (it\<lparr>item_id := uid k\<rparr> # r, k'))
      else (let (r, k') = uniqueIds uid its (insert (item_id it) seen) k
            in (it # r, k')))"

text \<open>
  \<open>Array.isArray(d.cats) ? d.cats.map(repairCat) : null\<close>, and the same for the items: the
  outer \<open>None\<close> is a raise, the inner \<open>None\<close> is \<open>null\<close>.
\<close>

definition catsField :: "jsval \<Rightarrow> category list option option" where
  "catsField d =
     (case get d (asc ''cats'') of
        JArr xs \<Rightarrow> map_option Some (mapCats xs)
      | _ \<Rightarrow> Some None)"

definition itemsField :: "idgen \<Rightarrow> jsval \<Rightarrow> nat \<Rightarrow> item list option option \<times> nat" where
  "itemsField uid d k =
     (case get d (asc ''items'') of
        JArr xs \<Rightarrow> (case mapItems uid xs k of (r, k') \<Rightarrow> (map_option Some r, k'))
      | _ \<Rightarrow> (Some None, k))"

text \<open>\<open>String(d.mode || fallbackMode || defaultSettings.tripMode)\<close>\<close>

definition modeOf :: "jsval \<Rightarrow> jstr \<Rightarrow> jstr option" where
  "modeOf d fallbackMode =
     toStr (orElse (get d (asc ''mode''))
             (orElse (JStr fallbackMode) (JStr (tripMode DEFAULT_SETTINGS))))"

text \<open>\<open>typeof d === 'object'\<close> for a truthy \<open>d\<close>\<close>

fun isObject :: "jsval \<Rightarrow> bool" where
  "isObject (JArr xs) = True"
| "isObject (JObj kvs) = True"
| "isObject v = False"

definition repairData :: "idgen \<Rightarrow> jsval \<Rightarrow> jstr \<Rightarrow> nat \<Rightarrow> document option \<times> nat" where
  "repairData uid d fallbackMode k =
     (if \<not> truthy d \<or> \<not> isObject d then newPreset uid fallbackMode k
      else
        (case modeOf d fallbackMode of
           None \<Rightarrow> (None, k)
         | Some m \<Rightarrow>
        (case catsField d of
           None \<Rightarrow> (None, k)
         | Some cs \<Rightarrow>
        (case itemsField uid d k of
           (None, k1) \<Rightarrow> (None, k1)
         | (Some is, k1) \<Rightarrow>
        (case (cs, is) of
           (Some cs, Some is) \<Rightarrow>
             if cs = [] then newPreset uid m k1
             else
               (let catIds = set (map cat_id cs);
                    fallbackCat = (if asc ''otros'' \<in> catIds then asc ''otros'' else cat_id (hd cs));
                    is1 = map (\<lambda>it. if item_cat it \<notin> catIds then it\<lparr>item_cat := fallbackCat\<rparr> else it) is;
                    (is2, k2) = uniqueIds uid is1 {} k1
                in (Some \<lparr>version = 2, mode = m, cats = cs, items = is2,
                           completedOnce = truthy (get d (asc ''__completedOnce''))\<rparr>, k2))
         | _ \<Rightarrow> newPreset uid m k1)))))"

text \<open>
  What \<open>loadData\<close> is called with (a mode, the settings, or nothing), and what reading the
  storage key gives: an exception, \<open>null\<close> for a key that is not there, or the stored text.
  \<open>JSON.parse\<close> is a parameter: \<open>None\<close> is its SyntaxError.
\<close>

datatype settingsOrMode = AMode jstr | ASettings settings | ANothing

datatype stored = ReadFails | Absent | Raw jstr

definition resolveMode :: "settingsOrMode \<Rightarrow> jstr" where
  "resolveMode a =
     (case a of
        AMode m \<Rightarrow> m
      | ASettings s \<Rightarrow> (if tripMode s \<noteq> [] then tripMode s else tripMode DEFAULT_SETTINGS)
      | ANothing \<Rightarrow> tripMode DEFAULT_SETTINGS)"

text \<open>
  The body of the \<open>try\<close> block of \<open>loadData\<close>, and \<open>loadData\<close>: whatever the block raises is
  caught, and \<open>newPreset(mode)\<close> is returned instead.
\<close>

definition loadTry ::
  "(jstr \<Rightarrow> jsval option) \<Rightarrow> idgen \<Rightarrow> jstr \<Rightarrow> stored \<Rightarrow> nat \<Rightarrow> document option \<times> nat" where
  "loadTry parse uid m st k =
     (case st of
        ReadFails \<Rightarrow> (None, k)
      | Absent \<Rightarrow> newPreset uid m k
      | Raw raw \<Rightarrow>
          if raw = [] then newPreset uid m k
          else (case parse raw of
                  None \<Rightarrow> (None, k)
                | Some parsed \<Rightarrow> repairData uid parsed m k))"

definition loadData ::
  "(jstr \<Rightarrow> jsval option) \<Rightarrow> idgen \<Rightarrow> settingsOrMode \<Rightarrow> stored \<Rightarrow> nat \<Rightarrow> document option \<times> nat" where
  "loadData parse uid a st k =
     (case loadTry parse uid (resolveMode a) st k of
        (Some d, k') \<Rightarrow> (Some d, k')
      | (None, k') \<Rightarrow> newPreset uid (resolveMode a) k')"

text \<open>A document of the program as the value that \<open>repairData\<close> reads when it is given one.\<close>

definition emojiJs :: "jstr option \<Rightarrow> jsval" where
  "emojiJs e = (case e of None \<Rightarrow> JNull | Some s \<Rightarrow> JStr s)"

definition catJs :: "category \<Rightarrow> jsval" where
  "catJs c = JObj [(asc ''id'', JStr (cat_id c)), (asc ''name'', JStr (cat_name c)),
                   (asc ''emoji'', emojiJs (cat_emoji c))]"

definition itemJs :: "item \<Rightarrow> jsval" where
  "itemJs i = JObj [(asc ''id'', JStr (item_id i)), (asc ''cat'', JStr (item_cat i)),
                    (asc ''name'', JStr (item_name i)), (asc ''emoji'', emojiJs (item_emoji i)),
                    (asc ''done'', JBool (item_done i))]"

definition docJs :: "document \<Rightarrow> jsval" where
  "docJs d = JObj [(asc ''version'', JNum True (asc ''2'')), (asc ''mode'', JStr (mode d)),
                   (asc ''cats'', JArr (map catJs (cats d))),
                   (asc ''items'', JArr (map itemJs (items d))),
                   (asc ''__completedOnce'', JBool (completedOnce d))]"

section \<open>State store (state.js)\<close>

record appstate =
  settings :: settings
  data :: document
  activeCat :: jstr

text \<open>
  A plain object that is merged over the state: the properties it has. What an updater
  returns is such an object or something that is not a plain object; what \<open>setState\<close> is
  given is an updater, such an object, or anything else.
\<close>

record patch =
  p_settings :: "settings option"
  p_data :: "document option"
  p_activeCat :: "jstr option"

datatype returned = Plain patch | NotPlain

datatype update = Updater "appstate \<Rightarrow> returned" | Partial patch | Other

text \<open>\<open>{ ...prev, ...out }\<close>\<close>

definition merge :: "appstate \<Rightarrow> patch \<Rightarrow> appstate" where
  "merge prev out =
     \<lparr>settings = (case p_settings out of None \<Rightarrow> settings prev | Some s \<Rightarrow> s),
      data = (case p_data out of None \<Rightarrow> data prev | Some d \<Rightarrow> d),
      activeCat = (case p_activeCat out of None \<Rightarrow> activeCat prev | Some c \<Rightarrow> c)\<rparr>"

text \<open>
  The running application: the variables of the store, and what the injected dependencies
  have been asked so far. The objects that the store holds as its state are numbered in the
  order in which they are created, and \<open>stateRef\<close> is the number of the current one: two
  states are the same object (\<open>===\<close>) when their numbers are equal. A listener is known by a
  number, and \<open>calls\<close> lists the calls \<open>fn(prev, next)\<close> made so far, each with the numbers of
  the two state objects it was given. \<open>drawn\<close> counts the ids drawn; the two last fields count
  the calls of the debounced writers \<open>saveData\<close> and \<open>saveSettings\<close>.
\<close>

record app =
  state :: appstate
  stateRef :: nat
  listeners :: "nat list"
  calls :: "(nat \<times> nat \<times> nat) list"
  drawn :: nat
  saveDataCalls :: nat
  saveSettingsCalls :: nat

definition subscribe :: "nat \<Rightarrow> app \<Rightarrow> app" where
  "subscribe fn A =
     (if fn \<in> set (listeners A) then A else A\<lparr>listeners := listeners A @ [fn]\<rparr>)"

definition emit :: "nat \<Rightarrow> nat \<Rightarrow> app \<Rightarrow> app" where
  "emit prev next A = A\<lparr>calls := calls A @ map (\<lambda>fn. (fn, prev, next)) (listeners A)\<rparr>"

text \<open>
  The value of \<open>next\<close> in \<open>setState\<close>, with the number of the object: a spread makes a new
  object, every other branch yields \<open>prev\<close> itself.
\<close>

definition nextState :: "update \<Rightarrow> app \<Rightarrow> nat \<times> appstate" where
  "nextState upd A =
     (let prev = state A
      in (case upd of
            Updater f \<Rightarrow>
              (case f prev of
                 Plain out \<Rightarrow> (Suc (stateRef A), merge prev out)
               | NotPlain \<Rightarrow> (stateRef A, prev))
          | Partial p \<Rightarrow> (Suc (stateRef A), merge prev p)
          | Other \<Rightarrow> (stateRef A, prev)))"

definition setState :: "update \<Rightarrow> app \<Rightarrow> app" where
  "setState upd A =
     (let (r, next) = nextState upd A
      in if r = stateRef A then A
         else emit (stateRef A) r (A\<lparr>state := next, stateRef := r\<rparr>))"

section \<open>Actions (actions.js)\<close>

text \<open>A state as the object that an updater returns when it returns a whole state.\<close>

definition whole :: "appstate \<Rightarrow> patch" where
  "whole s = \<lparr>p_settings = Some (settings s), p_data = Some (data s),
              p_activeCat = Some (activeCat s)\<rparr>"

text \<open>
  \<open>updateData\<close> and \<open>updateSettings\<close>: the mutator works on a copy of the state and the copy is
  returned, so it is a function from the state to the state.
\<close>

definition updateData :: "(appstate \<Rightarrow> appstate) \<Rightarrow> app \<Rightarrow> app" where
  "updateData mutator A =
     (let A' = setState (Updater (\<lambda>s. Plain (whole (mutator s)))) A
      in A'\<lparr>saveDataCalls := Suc (saveDataCalls A')\<rparr>)"

definition updateSettings :: "(appstate \<Rightarrow> appstate) \<Rightarrow> app \<Rightarrow> app" where
  "updateSettings mutator A =
     (let A' = setState (Updater (\<lambda>s. Plain (whole (mutator s)))) A
      in A'\<lparr>saveSettingsCalls := Suc (saveSettingsCalls A')\<rparr>)"

text \<open>
  The actions are called with strings, or with nothing (\<open>None\<close> is \<open>null\<close> or \<open>undefined\<close>).
  \<open>v ?? ''\<close> and \<open>ensureString(v, maxLen)\<close>:
\<close>

definition orEmpty :: "jstr option \<Rightarrow> jstr" where
  "orEmpty v = (case v of None \<Rightarrow> [] | Some s \<Rightarrow> s)"

definition ensureString :: "jstr option \<Rightarrow> nat \<Rightarrow> jstr" where
  "ensureString v maxLen =
     (let s = trim (orEmpty v)
      in if maxLen \<noteq> 0 then take maxLen s else s)"

definition normalizeEmoji :: "jstr option \<Rightarrow> jstr option" where
  "normalizeEmoji v = (let e = ensureString v 4 in if e = [] then None else Some e)"

text \<open>\<open>it.done = !it.done\<close> on the first item that \<open>find\<close> returns.\<close>

fun toggleFirst :: "jstr \<Rightarrow> item list \<Rightarrow> item list" where
  "toggleFirst i [] = []"
| "toggleFirst i (x # xs) =
     (if item_id x = i then x\<lparr>item_done := \<not> item_done x\<rparr> # xs else x # toggleFirst i xs)"

definition toggleDone :: "jstr \<Rightarrow> app \<Rightarrow> app" where
  "toggleDone i A =
     (let cleanId = ensureString (Some i) 120
      in if cleanId = [] then A
         else updateData (\<lambda>next.
                (case find (\<lambda>x. item_id x = cleanId) (items (data next)) of
                   None \<Rightarrow> next
                 | Some it \<Rightarrow>
                     next\<lparr>data := (data next)\<lparr>items := toggleFirst cleanId (items (data next)),
                                                completedOnce := False\<rparr>\<rparr>)) A)"

definition deleteItem :: "jstr \<Rightarrow> app \<Rightarrow> app" where
  "deleteItem i A =
     (let cleanId = ensureString (Some i) 120
      in if cleanId = [] then A
         else updateData (\<lambda>next.
                next\<lparr>data := (data next)\<lparr>items := filter (\<lambda>x. item_id x \<noteq> cleanId) (items (data next)),
                                           completedOnce := False\<rparr>\<rparr>) A)"

definition resetChecks :: "app \<Rightarrow> app" where
  "resetChecks A =
     updateData (\<lambda>next.
       next\<lparr>data := (data next)\<lparr>items := map (\<lambda>i. i\<lparr>item_done := False\<rparr>) (items (data next)),
                                  completedOnce := False\<rparr>\<rparr>) A"

definition setAll :: "bool \<Rightarrow> app \<Rightarrow> app" where
  "setAll d A =
     updateData (\<lambda>next.
       next\<lparr>data := (data next)\<lparr>items := map (\<lambda>i. i\<lparr>item_done := d\<rparr>) (items (data next)),
                                  completedOnce := False\<rparr>\<rparr>) A"

text \<open>
  The argument of \<open>createItem\<close>; \<open>n_uid\<close> is the id that the caller's own generator returns,
  when the caller passes one. Without it the id is drawn like every other.
\<close>

record newItem =
  n_name :: "jstr option"
  n_emoji :: "jstr option"
  n_cat :: "jstr option"
  n_uid :: "jstr option"

datatype result = Ok | Failed jstr

definition cleanCatOf :: "newItem \<Rightarrow> jstr" where
  "cleanCatOf a = (let c = ensureString (n_cat a) 40 in if c = [] then asc ''otros'' else c)"

definition createItem :: "idgen \<Rightarrow> newItem \<Rightarrow> app \<Rightarrow> result \<times> app" where
  "createItem uid a A =
     (let cleanName = ensureString (n_name a) 60;
          cleanEmoji = normalizeEmoji (n_emoji a);
          cleanCat = cleanCatOf a
      in if cleanName = [] then (Failed (asc ''EMPTY_NAME''), A)
         else
           (let (i, k) = (case n_uid a of Some i \<Rightarrow> (i, drawn A) | None \<Rightarrow> (uid (drawn A), Suc (drawn A)))
            in (Ok, updateData (\<lambda>next.
                      next\<lparr>data := (data next)\<lparr>items :=
                                \<lparr>item_id = i, item_cat = cleanCat, item_name = cleanName,
                                 item_emoji = cleanEmoji, item_done = False\<rparr> # items (data next),
                              completedOnce := False\<rparr>\<rparr>) (A\<lparr>drawn := k\<rparr>))))"

text \<open>
  \<open>changeMode\<close> and \<open>wipeAll\<close> call \<open>newPreset\<close> inside their updater. When it raises, the
  exception leaves \<open>setState\<close> before anything is assigned and leaves the action:
  \<open>Throws\<close>, with the application as it is then.
\<close>

datatype completion = Returns | Throws

definition changeMode :: "idgen \<Rightarrow> jstr \<Rightarrow> app \<Rightarrow> completion \<times> app" where
  "changeMode uid m0 A =
     (let m = (let c = ensureString (Some m0) 24 in if c = [] then asc ''salida'' else c);
          A1 = updateSettings (\<lambda>next. next\<lparr>settings := (settings next)\<lparr>tripMode := m\<rparr>\<rparr>) A
      in (case newPreset uid m (drawn A1) of
            (None, k) \<Rightarrow> (Throws, A1\<lparr>drawn := k\<rparr>)
          | (Some d, k) \<Rightarrow>
              (let A2 = setState (Updater (\<lambda>s. Plain \<lparr>p_settings = Some (settings s), p_data = Some d,
                                                     p_activeCat = Some (asc ''all'')\<rparr>)) (A1\<lparr>drawn := k\<rparr>)
               in (Returns, A2\<lparr>saveDataCalls := Suc (saveDataCalls A2)\<rparr>))))"

definition wipeAll :: "idgen \<Rightarrow> app \<Rightarrow> completion \<times> app" where
  "wipeAll uid A =
     (case newPreset uid (asc ''salida'') (drawn A) of
        (None, k) \<Rightarrow> (Throws, A\<lparr>drawn := k\<rparr>)
      | (Some d, k) \<Rightarrow>
          (let A1 = setState (Updater (\<lambda>s. Plain
                      \<lparr>p_settings = Some \<lparr>tripMode = asc ''salida'', motion = True, sound = True, streak = 0\<rparr>,
                       p_data = Some d, p_activeCat = Some (asc ''all'')\<rparr>)) (A\<lparr>drawn := k\<rparr>)
           in (Returns, A1\<lparr>saveSettingsCalls := Suc (saveSettingsCalls A1),
                            saveDataCalls := Suc (saveDataCalls A1)\<rparr>)))"

section \<open>Completion check (render.js, app.js)\<close>

text \<open>
  What \<open>renderProgress\<close> returns, without the percentage (a rounded floating-point quotient
  that is only displayed).
\<close>

record progress =
  r_done :: nat
  r_total :: nat
  r_completed :: bool

definition renderProgress :: "appstate \<Rightarrow> progress" where
  "renderProgress s =
     (let d = length (filter item_done (items (data s)));
          t = length (items (data s))
      in \<lparr>r_done = d, r_total = t, r_completed = (t > 0 \<and> d = t)\<rparr>)"

text \<open>
  The streak is a number that holds an integer: \<open>sanitizeSettings\<close> floors and clamps what
  it loads, and the program only ever adds one to it. \<open>n + 1\<close> on such a double is exact
  up to \<open>2^53\<close>; from there on the doubles are the multiples of 2 (up to \<open>2^54\<close>), then
  of 4 and more, and the sum is rounded to the nearest one, to the one with the even
  significand when it lies halfway. \<open>(streak || 0) + 1\<close> is \<open>streak + 1\<close>, as the only
  falsy integer is 0.
\<close>

definition plusOne :: "int \<Rightarrow> int" where
  "plusOne n =
     (if - (2 ^ 53) \<le> n \<and> n < 2 ^ 53 then n + 1
      else if - (2 ^ 54) < n \<and> n < 2 ^ 54 then (if n mod 4 = 0 then n else n + 2)
      else n)"

definition runProgress :: "app \<Rightarrow> app" where
  "runProgress A =
     (let st = state A; result = renderProgress st
      in if r_completed result then
           (if \<not> completedOnce (data st) then
              setState (Updater (\<lambda>prev. Plain
                \<lparr>p_settings = Some ((settings prev)\<lparr>streak := plusOne (streak (settings prev))\<rparr>),
                 p_data = Some ((data prev)\<lparr>completedOnce := True\<rparr>),
                 p_activeCat = None\<rparr>)) A
            else A)
         else
           (if completedOnce (data st) then
              setState (Updater (\<lambda>prev. Plain
                \<lparr>p_settings = None,
                 p_data = Some ((data prev)\<lparr>completedOnce := False\<rparr>),
                 p_activeCat = None\<rparr>)) A
            else A))"

text \<open>The handler \<open>onToggle\<close> that \<open>boot\<close> gives to the list and to the gestures.\<close>

definition onToggle :: "jstr \<Rightarrow> app \<Rightarrow> app" where
  "onToggle i A = runProgress (toggleDone i A)"

section \<open>Start of the application (app.js)\<close>

text \<open>
  \<open>createStore\<close> copies the initial state; no listener is subscribed yet. \<open>boot\<close> loads the
  document for the settings, creates the store, subscribes the listener that writes the
  state back (number 0) and the one that keeps the settings form in step (number 1), and
  ends with the first paint, \<open>renderAll\<close>, whose last step is the completion check.
\<close>

definition createStore :: "appstate \<Rightarrow> nat \<Rightarrow> app" where
  "createStore initialState k =
     \<lparr>state = initialState, stateRef = 0, listeners = [], calls = [], drawn = k,
      saveDataCalls = 0, saveSettingsCalls = 0\<rparr>"

definition boot :: "(jstr \<Rightarrow> jsval option) \<Rightarrow> idgen \<Rightarrow> settings \<Rightarrow> stored \<Rightarrow> app option" where
  "boot parse uid s st =
     (case loadData parse uid (ASettings s) st 0 of
        (None, k) \<Rightarrow> None
      | (Some d, k) \<Rightarrow>
          Some (runProgress (subscribe 1 (subscribe 0
            (createStore \<lparr>settings = s, data = d, activeCat = asc ''all''\<rparr> k)))))"

section \<open>Completing the list\<close>

text \<open>
  The ids of the items that are not done, in order, and the user marking each of them in
  turn through \<open>onToggle\<close>, with the completion check run at the end. An id reaches the
  item it belongs to when it is its own cleaned form and no other item has it.
\<close>

definition pending :: "app \<Rightarrow> jstr list" where
  "pending A = map item_id (filter (\<lambda>i. \<not> item_done i) (items (data (state A))))"

definition completeAll :: "app \<Rightarrow> app" where
  "completeAll A = runProgress (fold onToggle (pending A) A)"

definition cleanIds :: "jstr list \<Rightarrow> bool" where
  "cleanIds ks \<longleftrightarrow>
     distinct ks \<and> list_all (\<lambda>k. k \<noteq> [] \<and> ensureString (Some k) 120 = k) ks"

section \<open>Properties of a document\<close>

text \<open>Every item's category is the id of one of the document's categories.\<close>

definition catsKnown :: "document \<Rightarrow> bool" where
  "catsKnown D \<longleftrightarrow> list_all (\<lambda>i. item_cat i \<in> cat_id ` set (cats D)) (items D)"

text \<open>
  The ids of the items of a document. The ids that the items of a stored value carry (the
  strings of the truthy ones), and those of what is stored under the key. A generator is
  fresh for a list of ids when it never returns the same id twice and never one of the list.
\<close>

definition itemIds :: "document \<Rightarrow> jstr list" where
  "itemIds D = map item_id (items D)"

definition storedIds :: "jsval \<Rightarrow> jstr list" where
  "storedIds d =
     (case get d (asc ''items'') of
        JArr xs \<Rightarrow> List.map_filter
          (\<lambda>x. if truthy (get x (asc ''id'')) then toStr (get x (asc ''id'')) else None) xs
      | _ \<Rightarrow> [])"

definition storedItemIds :: "(jstr \<Rightarrow> jsval option) \<Rightarrow> stored \<Rightarrow> jstr list" where
  "storedItemIds parse st =
     (case st of
        Raw raw \<Rightarrow> (case parse raw of Some d \<Rightarrow> storedIds d | None \<Rightarrow> [])
      | _ \<Rightarrow> [])"

definition freshIds :: "idgen \<Rightarrow> jstr list \<Rightarrow> bool" where
  "freshIds uid ks \<longleftrightarrow> inj uid \<and> range uid \<inter> set ks = {}"




definition resolvedMode :: "jsval \<Rightarrow> jstr \<Rightarrow> jstr option" where
  "resolvedMode d fallbackMode =
     (if \<not> truthy d \<or> \<not> isObject d then Some fallbackMode else modeOf d fallbackMode)"

text \<open>
  A document that the repair leaves as it is: version 2, a mode, at least one category,
  every category with a trimmed id and name and every item with an id and a name of at most
  80 code units, every emoji \<open>null\<close> or a string of one to four code units, the category of
  every item known and the item ids pairwise distinct. \<open>itemBody\<close> is what the repair of an
  item settles before the ids are made unique.
\<close>

definition shortEmoji :: "jstr option \<Rightarrow> bool" where
  "shortEmoji e = (case e of None \<Rightarrow> True | Some s \<Rightarrow> s \<noteq> [] \<and> length s \<le> 4)"

definition settledCat :: "category \<Rightarrow> bool" where
  "settledCat c \<longleftrightarrow>
     cat_id c \<noteq> [] \<and> trim (cat_id c) = cat_id c \<and>
     cat_name c \<noteq> [] \<and> trim (cat_name c) = cat_name c \<and> shortEmoji (cat_emoji c)"

definition settledItem :: "item \<Rightarrow> bool" where
  "settledItem i \<longleftrightarrow>
     item_id i \<noteq> [] \<and> item_name i \<noteq> [] \<and> length (item_name i) \<le> 80 \<and>
     shortEmoji (item_emoji i)"

definition settled :: "document \<Rightarrow> bool" where
  "settled D \<longleftrightarrow>
     version D = 2 \<and> mode D \<noteq> [] \<and> cats D \<noteq> [] \<and> list_all settledCat (cats D) \<and>
     list_all settledItem (items D) \<and> catsKnown D \<and> distinct (itemIds D)"

definition itemBody :: "item \<Rightarrow> bool" where
  "itemBody i \<longleftrightarrow> item_name i \<noteq> [] \<and> length (item_name i) \<le> 80 \<and> shortEmoji (item_emoji i)"

text \<open>
  A stored field that is either falsy or does not convert to the empty string, and a
  stored value in which this holds of the mode, of the emoji of every category and of the
  name and the emoji of every item.
\<close>

definition nonEmptyText :: "jsval \<Rightarrow> bool" where
  "nonEmptyText v \<longleftrightarrow> \<not> truthy v \<or> toStr v \<noteq> Some []"

definition plainFields :: "jsval \<Rightarrow> bool" where
  "plainFields d \<longleftrightarrow>
     nonEmptyText (get d (asc ''mode'')) \<and>
     (case get d (asc ''cats'') of
        JArr cs \<Rightarrow> list_all (\<lambda>c. nonEmptyText (get c (asc ''emoji''))) cs
      | _ \<Rightarrow> True) \<and>
     (case get d (asc ''items'') of
        JArr is \<Rightarrow> list_all (\<lambda>i. nonEmptyText (get i (asc ''name'')) \<and>
                                  nonEmptyText (get i (asc ''emoji''))) is
      | _ \<Rightarrow> True)"

section \<open>Sample inputs\<close>

text \<open>An id generator (a, a0, a00, ...) and a small running application.\<close>

definition sampleUid :: idgen where
  "sampleUid n = asc ''a'' @ replicate n 0x30"

definition sampleDoc :: document where
  "sampleDoc =
     \<lparr>version = 2, mode = asc ''viaje'',
      cats = [\<lparr>cat_id = asc ''docs'', cat_name = asc ''Documentos'', cat_emoji = None\<rparr>],
      items = [\<lparr>item_id = asc ''p1'', item_cat = asc ''docs'', item_name = asc ''Pasaporte'',
                item_emoji = None, item_done = True\<rparr>,
               \<lparr>item_id = asc ''p2'', item_cat = asc ''docs'', item_name = asc ''Reservas'',
                item_emoji = None, item_done = False\<rparr>],
      completedOnce = False\<rparr>"

definition sampleApp :: app where
  "sampleApp =
     subscribe 1 (subscribe 0
       (createStore \<lparr>settings = DEFAULT_SETTINGS\<lparr>tripMode := asc ''viaje''\<rparr>, data = sampleDoc,
                     activeCat = asc ''all''\<rparr> 0))"

text \<open>
  A parser of which one result is known, a stored text with the value it parses to (loading
  it gives the sample document: the second item's category is re-pointed), and a stored
  text with two categories of the same id.
\<close>

definition parseOnly :: "jstr \<Rightarrow> jsval \<Rightarrow> jstr \<Rightarrow> jsval option" where
  "parseOnly text v raw = (if raw = text then Some v else None)"

definition twoCatsText :: jstr where
  "twoCatsText = asc ''{\"cats\":[{\"id\":\"a\"},{\"id\":\"a\"}],\"items\":[]}''"

definition twoCats :: jsval where
  "twoCats = JObj [(asc ''cats'', JArr [JObj [(asc ''id'', JStr (asc ''a''))],
                                         JObj [(asc ''id'', JStr (asc ''a''))]]),
                   (asc ''items'', JArr [])]"

definition storedText :: jstr where
  "storedText = asc (''{\"mode\":\"viaje\",\"cats\":[{\"id\":\"docs\",\"name\":\"Documentos\"}],'' @
     ''\"items\":[{\"id\":\"p1\",\"cat\":\"docs\",\"name\":\"Pasaporte\",\"done\":true},'' @
     ''{\"id\":\"p2\",\"cat\":\"zz\",\"name\":\"Reservas\"}]}'')"

definition storedValue :: jsval where
  "storedValue = JObj
     [(asc ''mode'', JStr (asc ''viaje'')),
      (asc ''cats'', JArr [JObj [(asc ''id'', JStr (asc ''docs'')), (asc ''name'', JStr (asc ''Documentos''))]]),
      (asc ''items'', JArr
         [JObj [(asc ''id'', JStr (asc ''p1'')), (asc ''cat'', JStr (asc ''docs'')),
                (asc ''name'', JStr (asc ''Pasaporte'')), (asc ''done'', JBool True)],
          JObj [(asc ''id'', JStr (asc ''p2'')), (asc ''cat'', JStr (asc ''zz'')),
                (asc ''name'', JStr (asc ''Reservas''))]])]"

text \<open>A stored text whose one item has an id that begins with a space, and the application
  that starts from it.\<close>

definition spacedText :: jstr where
  "spacedText = asc (''{\"cats\":[{\"id\":\"docs\",\"name\":\"Documentos\"}],'' @
     ''\"items\":[{\"id\":\" x\",\"cat\":\"docs\",\"name\":\"Pasaporte\"}]}'')"

definition spacedValue :: jsval where
  "spacedValue = JObj
     [(asc ''cats'', JArr [JObj [(asc ''id'', JStr (asc ''docs'')), (asc ''name'', JStr (asc ''Documentos''))]]),
      (asc ''items'', JArr
         [JObj [(asc ''id'', JStr (asc '' x'')), (asc ''cat'', JStr (asc ''docs'')),
                (asc ''name'', JStr (asc ''Pasaporte''))]])]"

definition spacedDoc :: document where
  "spacedDoc =
     \<lparr>version = 2, mode = asc ''salida'',
      cats = [\<lparr>cat_id = asc ''docs'', cat_name = asc ''Documentos'', cat_emoji = None\<rparr>],
      items = [\<lparr>item_id = asc '' x'', item_cat = asc ''docs'', item_name = asc ''Pasaporte'',
                item_emoji = None, item_done = False\<rparr>],
      completedOnce = False\<rparr>"

definition spacedApp :: app where
  "spacedApp =
     subscribe 1 (subscribe 0
       (createStore \<lparr>settings = DEFAULT_SETTINGS, data = spacedDoc, activeCat = asc ''all''\<rparr> 0))"

text \<open>
  A stored text with two items of the same id and one without id, and the document that
  loading it gives with the sample generator. A stored text without cats in which the name
  of an item is an object with a property \<open>toString\<close>. A stored value without cats, with
  one item, and the preset document that its repair gives.
\<close>

definition dupText :: jstr where
  "dupText = asc (''{\"cats\":[{\"id\":\"docs\",\"name\":\"Documentos\"}],'' @
     ''\"items\":[{\"id\":\"p1\",\"cat\":\"docs\",\"name\":\"Pasaporte\"},'' @
     ''{\"id\":\"p1\",\"cat\":\"docs\",\"name\":\"Reservas\"},{\"cat\":\"docs\",\"name\":\"Visa\"}]}'')"

definition dupValue :: jsval where
  "dupValue = JObj
     [(asc ''cats'', JArr [JObj [(asc ''id'', JStr (asc ''docs'')), (asc ''name'', JStr (asc ''Documentos''))]]),
      (asc ''items'', JArr
         [JObj [(asc ''id'', JStr (asc ''p1'')), (asc ''cat'', JStr (asc ''docs'')),
                (asc ''name'', JStr (asc ''Pasaporte''))],
          JObj [(asc ''id'', JStr (asc ''p1'')), (asc ''cat'', JStr (asc ''docs'')),
                (asc ''name'', JStr (asc ''Reservas''))],
          JObj [(asc ''cat'', JStr (asc ''docs'')), (asc ''name'', JStr (asc ''Visa''))]])]"

definition dupDoc :: document where
  "dupDoc =
     \<lparr>version = 2, mode = asc ''salida'',
      cats = [\<lparr>cat_id = asc ''docs'', cat_name = asc ''Documentos'', cat_emoji = None\<rparr>],
      items = [\<lparr>item_id = asc ''p1'', item_cat = asc ''docs'', item_name = asc ''Pasaporte'',
                item_emoji = None, item_done = False\<rparr>,
               \<lparr>item_id = asc ''a0'', item_cat = asc ''docs'', item_name = asc ''Reservas'',
                item_emoji = None, item_done = False\<rparr>,
               \<lparr>item_id = asc ''a'', item_cat = asc ''docs'', item_name = asc ''Visa'',
                item_emoji = None, item_done = False\<rparr>],
      completedOnce = False\<rparr>"





text \<open>
  A stored value whose one category has the empty array as emoji, what the repair makes of
  it and what the repair makes of that. A stored value whose one item has the empty array
  as name, with its repair. The document that the repair of \<open>null\<close> gives for the empty
  fallback mode.
\<close>

definition emptyEmojiValue :: jsval where
  "emptyEmojiValue = JObj
     [(asc ''cats'', JArr [JObj [(asc ''id'', JStr (asc ''a'')), (asc ''name'', JStr (asc ''A'')),
                                 (asc ''emoji'', JArr [])]]),
      (asc ''items'', JArr [])]"

definition onceRepaired :: document where
  "onceRepaired =
     \<lparr>version = 2, mode = asc ''salida'',
      cats = [\<lparr>cat_id = asc ''a'', cat_name = asc ''A'', cat_emoji = Some []\<rparr>],
      items = [], completedOnce = False\<rparr>"

definition twiceRepaired :: document where
  "twiceRepaired =
     \<lparr>version = 2, mode = asc ''salida'',
      cats = [\<lparr>cat_id = asc ''a'', cat_name = asc ''A'', cat_emoji = None\<rparr>],
      items = [], completedOnce = False\<rparr>"

definition blankModeDoc :: document where
  "blankModeDoc = \<lparr>version = 2, mode = [], cats = p_cats salida,
                    items = materialize sampleUid (p_items salida) 0, completedOnce = False\<rparr>"

definition emptyNameValue :: jsval where
  "emptyNameValue = JObj
     [(asc ''cats'', JArr [JObj [(asc ''id'', JStr (asc ''a'')), (asc ''name'', JStr (asc ''A''))]]),
      (asc ''items'', JArr [JObj [(asc ''id'', JStr (asc ''p1'')), (asc ''cat'', JStr (asc ''a'')),
                                  (asc ''name'', JArr [])]])]"

definition emptyNameDoc :: document where
  "emptyNameDoc =
     \<lparr>version = 2, mode = asc ''salida'',
      cats = [\<lparr>cat_id = asc ''a'', cat_name = asc ''A'', cat_emoji = None\<rparr>],
      items = [\<lparr>item_id = asc ''p1'', item_cat = asc ''a'', item_name = [],
                item_emoji = None, item_done = False\<rparr>],
      completedOnce = False\<rparr>"

section \<open>The store and the actions as equations\<close>

lemma setState_Other: "setState Other A = A"
  by (simp add: setState_def nextState_def)

lemma setState_same: "fst (nextState upd A) = stateRef A \<Longrightarrow> setState upd A = A"
  by (auto simp add: setState_def split: prod.splits)

lemma setState_Plain:
  "f (state A) = Plain out \<Longrightarrow>
   setState (Updater f) A =
     A\<lparr>state := merge (state A) out, stateRef := Suc (stateRef A),
       calls := calls A @ map (\<lambda>fn. (fn, stateRef A, Suc (stateRef A))) (listeners A)\<rparr>"
  by (simp add: setState_def nextState_def emit_def)

lemma merge_whole: "merge s (whole t) = t"
  by (simp add: merge_def whole_def)

lemma updateData_eq:
  "updateData mutator A =
     A\<lparr>state := mutator (state A), stateRef := Suc (stateRef A),
       calls := calls A @ map (\<lambda>fn. (fn, stateRef A, Suc (stateRef A))) (listeners A),
       saveDataCalls := Suc (saveDataCalls A)\<rparr>"
  by (simp add: updateData_def setState_Plain merge_whole Let_def)

lemma updateSettings_eq:
  "updateSettings mutator A =
     A\<lparr>state := mutator (state A), stateRef := Suc (stateRef A),
       calls := calls A @ map (\<lambda>fn. (fn, stateRef A, Suc (stateRef A))) (listeners A),
       saveSettingsCalls := Suc (saveSettingsCalls A)\<rparr>"
  by (simp add: updateSettings_def setState_Plain merge_whole Let_def)

lemma find_None_ids: "find (\<lambda>x. item_id x = c) xs = None \<longleftrightarrow> c \<notin> item_id ` set xs"
  by (auto simp add: find_None_iff)

section \<open>The preset catalog\<close>

lemma PRESETS_keys:
  "PRESETS m = Some p \<Longrightarrow>
     m \<in> {asc ''salida'', asc ''viaje'', asc ''gira'', asc ''playa'', asc ''frio''}"
  by (simp add: PRESETS_def split: if_splits)

lemma catalog_key_clean:
  assumes "PRESETS m = Some p"
  shows "ensureString (Some m) 24 = m" and "m \<noteq> []"
  using PRESETS_keys [OF assms]
  by (auto simp add: ensureString_def orEmpty_def trim_def isSpace_def asc_def)

lemma presetFor_catalog: "PRESETS m = Some p \<Longrightarrow> presetFor m = Entry p"
  by (simp add: presetFor_def)

lemma materialize_not_done: "list_all (\<lambda>i. \<not> item_done i) (materialize uid xs k)"
  by (induction xs arbitrary: k) simp_all

lemma changeMode_catalog:
  assumes "PRESETS m = Some p"
  shows "changeMode uid m A =
     (Returns,
      A\<lparr>state := \<lparr>settings = (settings (state A))\<lparr>tripMode := m\<rparr>,
                   data = \<lparr>version = 2, mode = m, cats = p_cats p,
                           items = materialize uid (p_items p) (drawn A), completedOnce = False\<rparr>,
                   activeCat = asc ''all''\<rparr>,
        stateRef := Suc (Suc (stateRef A)),
        calls := calls A @ map (\<lambda>fn. (fn, stateRef A, Suc (stateRef A))) (listeners A)
                  @ map (\<lambda>fn. (fn, Suc (stateRef A), Suc (Suc (stateRef A)))) (listeners A),
        drawn := drawn A + length (p_items p),
        saveDataCalls := Suc (saveDataCalls A),
        saveSettingsCalls := Suc (saveSettingsCalls A)\<rparr>)"
  using catalog_key_clean [OF assms] presetFor_catalog [OF assms]
  by (simp add: changeMode_def updateSettings_eq newPreset_def setState_Plain merge_def Let_def)

section \<open>Toggling and the completion check\<close>

lemma toggleFirst_distinct:
  "distinct (map item_id xs) \<Longrightarrow>
   toggleFirst n xs = map (\<lambda>x. if item_id x = n then x\<lparr>item_done := \<not> item_done x\<rparr> else x) xs"
proof (induction xs)
  case Nil
  then show ?case by simp
next
  case (Cons x xs)
  show ?case
  proof (cases "item_id x = n")
    case True
    with Cons.prems have "\<forall>y\<in>set xs. item_id y \<noteq> n"
      by (auto simp add: image_iff)
    then have "map (\<lambda>x. if item_id x = n then x\<lparr>item_done := \<not> item_done x\<rparr> else x) xs = xs"
      by (simp add: map_idI)
    with True show ?thesis by simp
  next
    case False
    with Cons show ?thesis by simp
  qed
qed

lemma toggleFirst_ids: "map item_id (toggleFirst n xs) = map item_id xs"
  by (induction xs) simp_all

lemma runProgress_eq:
  "runProgress A =
     (if items (data (state A)) \<noteq> [] \<and> list_all item_done (items (data (state A))) then
        (if completedOnce (data (state A)) then A
         else A\<lparr>state := (state A)\<lparr>settings := (settings (state A))\<lparr>streak := plusOne (streak (settings (state A)))\<rparr>,
                                  data := (data (state A))\<lparr>completedOnce := True\<rparr>\<rparr>,
                stateRef := Suc (stateRef A),
                calls := calls A @ map (\<lambda>fn. (fn, stateRef A, Suc (stateRef A))) (listeners A)\<rparr>)
      else
        (if completedOnce (data (state A)) then
           A\<lparr>state := (state A)\<lparr>data := (data (state A))\<lparr>completedOnce := False\<rparr>\<rparr>,
             stateRef := Suc (stateRef A),
             calls := calls A @ map (\<lambda>fn. (fn, stateRef A, Suc (stateRef A))) (listeners A)\<rparr>
         else A))"
proof -
  have c: "r_completed (renderProgress (state A)) \<longleftrightarrow>
             items (data (state A)) \<noteq> [] \<and> list_all item_done (items (data (state A)))"
    by (auto simp add: renderProgress_def Let_def list_all_iff filter_id_conv
        dest: arg_cong [where f = set] length_filter_less [THEN less_imp_neq])
  show ?thesis
    unfolding runProgress_def Let_def c
    by (simp add: setState_Plain merge_def)
qed

lemma toggleDone_found:
  assumes "ensureString (Some i) 120 = c" and "c \<noteq> []"
    and "c \<in> item_id ` set (items (data (state A)))"
  shows "toggleDone i A =
     A\<lparr>state := (state A)\<lparr>data := (data (state A))\<lparr>items := toggleFirst c (items (data (state A))),
                                                   completedOnce := False\<rparr>\<rparr>,
       stateRef := Suc (stateRef A),
       calls := calls A @ map (\<lambda>fn. (fn, stateRef A, Suc (stateRef A))) (listeners A),
       saveDataCalls := Suc (saveDataCalls A)\<rparr>"
proof -
  from assms(3) have "find (\<lambda>x. item_id x = c) (items (data (state A))) \<noteq> None"
    by (simp add: find_None_ids)
  then obtain it where "find (\<lambda>x. item_id x = c) (items (data (state A))) = Some it"
    by auto
  with assms(1,2) show ?thesis
    by (simp add: toggleDone_def updateData_eq Let_def)
qed

lemma onToggle_found:
  assumes "ensureString (Some i) 120 = c" and "c \<noteq> []"
    and "c \<in> item_id ` set (items (data (state A)))"
  shows "items (data (state (onToggle i A))) = toggleFirst c (items (data (state A)))"
    and "completedOnce (data (state (onToggle i A))) \<longleftrightarrow>
           toggleFirst c (items (data (state A))) \<noteq> [] \<and>
           list_all item_done (toggleFirst c (items (data (state A))))"
    and "streak (settings (state (onToggle i A))) =
           (if toggleFirst c (items (data (state A))) \<noteq> [] \<and>
               list_all item_done (toggleFirst c (items (data (state A))))
            then plusOne (streak (settings (state A))) else streak (settings (state A)))"
  by (simp_all add: onToggle_def toggleDone_found [OF assms] runProgress_eq)

lemma pending_item_not_done:
  assumes "distinct (map item_id xs)" and "n \<in> set (map item_id (filter (\<lambda>i. \<not> item_done i) xs))"
    and "x \<in> set xs" and "item_id x = n"
  shows "\<not> item_done x"
proof -
  from assms(2) obtain y where y: "y \<in> set xs" "\<not> item_done y" "item_id y = n"
    by auto
  from assms(1) have "inj_on item_id (set xs)"
    by (simp add: distinct_map)
  with y assms(3,4) have "x = y"
    by (auto dest: inj_onD)
  with y show ?thesis by simp
qed

lemma pending_after_toggle:
  assumes d: "distinct (map item_id xs)"
    and p: "map item_id (filter (\<lambda>i. \<not> item_done i) xs) = n # rest"
  shows "map item_id (filter (\<lambda>i. \<not> item_done i) (toggleFirst n xs)) = rest"
proof -
  let ?f = "\<lambda>x. if item_id x = n then x\<lparr>item_done := \<not> item_done x\<rparr> else x"
  have nd: "\<And>x. x \<in> set xs \<Longrightarrow> item_id x = n \<Longrightarrow> \<not> item_done x"
    using pending_item_not_done [OF d, of n] p by simp
  have "filter (\<lambda>i. \<not> item_done i) (map ?f xs)
          = map ?f (filter (\<lambda>x. \<not> item_done x \<and> item_id x \<noteq> n) xs)"
    unfolding filter_map
    by (rule arg_cong [where f = "map ?f"], rule filter_cong) (auto dest: nd)
  also have "\<dots> = filter (\<lambda>x. \<not> item_done x \<and> item_id x \<noteq> n) xs"
    by (rule map_idI) simp
  finally have "map item_id (filter (\<lambda>i. \<not> item_done i) (toggleFirst n xs))
          = map item_id (filter (\<lambda>x. item_id x \<noteq> n) (filter (\<lambda>i. \<not> item_done i) xs))"
    by (simp add: toggleFirst_distinct [OF d] conj_commute)
  also have "\<dots> = filter (\<lambda>k. k \<noteq> n) (map item_id (filter (\<lambda>i. \<not> item_done i) xs))"
    by (simp add: filter_map comp_def)
  also have "\<dots> = filter (\<lambda>k. k \<noteq> n) (n # rest)"
    by (simp only: p)
  also have "\<dots> = rest"
  proof -
    have "distinct (map item_id (filter (\<lambda>i. \<not> item_done i) xs))"
      using d by (rule distinct_map_filter)
    then have "n \<notin> set rest" by (simp add: p)
    then show ?thesis by (auto simp add: filter_id_conv)
  qed
  finally show ?thesis .
qed


lemma all_done_iff_pending:
  "list_all item_done xs \<longleftrightarrow> map item_id (filter (\<lambda>i. \<not> item_done i) xs) = []"
  by (auto simp add: list_all_iff filter_empty_conv)

lemma toggleFirst_Nil_iff: "toggleFirst n xs = [] \<longleftrightarrow> xs = []"
  by (cases xs) simp_all


lemma fold_onToggle_pending:
  assumes "cleanIds (map item_id (items (data (state A))))"
    and "\<not> completedOnce (data (state A))"
    and "pending A = ns" and "ns \<noteq> []"
  shows "map item_id (items (data (state (fold onToggle ns A)))) = map item_id (items (data (state A))) \<and>
         list_all item_done (items (data (state (fold onToggle ns A)))) \<and>
         completedOnce (data (state (fold onToggle ns A))) \<and>
         streak (settings (state (fold onToggle ns A))) = plusOne (streak (settings (state A)))"
  using assms
proof (induction ns arbitrary: A)
  case Nil
  then show ?case by simp
next
  case (Cons n rest)
  let ?xs = "items (data (state A))"
  let ?A' = "onToggle n A"
  from Cons.prems(3) have p: "map item_id (filter (\<lambda>i. \<not> item_done i) ?xs) = n # rest"
    by (simp add: pending_def)
  then have "n \<in> set (map item_id (filter (\<lambda>i. \<not> item_done i) ?xs))"
    by simp
  then have mem: "n \<in> item_id ` set ?xs"
    by auto
  with Cons.prems(1) have c: "ensureString (Some n) 120 = n" "n \<noteq> []"
    by (auto simp add: cleanIds_def list_all_iff)
  from Cons.prems(1) have d: "distinct (map item_id ?xs)"
    by (simp add: cleanIds_def)
  note t = onToggle_found [OF c mem]
  have ids': "map item_id (items (data (state ?A'))) = map item_id ?xs"
    by (simp add: t(1) toggleFirst_ids)
  have pend': "pending ?A' = rest"
    by (simp add: pending_def t(1) pending_after_toggle [OF d p])
  have ne: "toggleFirst n ?xs \<noteq> []"
    using mem by (auto simp add: toggleFirst_Nil_iff)
  have done': "list_all item_done (toggleFirst n ?xs) \<longleftrightarrow> rest = []"
    using pend' by (simp add: all_done_iff_pending pending_def t(1))
  show ?case
  proof (cases "rest = []")
    case True
    with ids' t ne done' show ?thesis by simp
  next
    case False
    have "cleanIds (map item_id (items (data (state ?A'))))"
      using Cons.prems(1) by (simp add: ids')
    moreover have "\<not> completedOnce (data (state ?A'))"
      using False done' by (simp add: t(2))
    ultimately have ih:
      "map item_id (items (data (state (fold onToggle rest ?A')))) = map item_id (items (data (state ?A'))) \<and>
       list_all item_done (items (data (state (fold onToggle rest ?A')))) \<and>
       completedOnce (data (state (fold onToggle rest ?A'))) \<and>
       streak (settings (state (fold onToggle rest ?A'))) = plusOne (streak (settings (state ?A')))"
      using pend' False by (rule Cons.IH)
    have "streak (settings (state ?A')) = streak (settings (state A))"
      using False done' by (simp add: t(3))
    with ih ids' show ?thesis by simp
  qed
qed

lemma toggle_undoes_done:
  "x \<in> item_id ` set xs \<Longrightarrow> list_all item_done xs \<Longrightarrow> \<not> list_all item_done (toggleFirst x xs)"
  by (induction xs) auto

lemma completeAll_facts:
  assumes "items (data (state A)) \<noteq> []"
    and "\<not> completedOnce (data (state A))"
    and "cleanIds (map item_id (items (data (state A))))"
  shows "map item_id (items (data (state (completeAll A)))) = map item_id (items (data (state A)))"
    and "list_all item_done (items (data (state (completeAll A))))"
    and "completedOnce (data (state (completeAll A)))"
    and "streak (settings (state (completeAll A))) = plusOne (streak (settings (state A)))"
proof -
  let ?B = "fold onToggle (pending A) A"
  have B: "map item_id (items (data (state ?B))) = map item_id (items (data (state A))) \<and>
           list_all item_done (items (data (state ?B))) \<and>
           (completedOnce (data (state ?B)) \<longrightarrow>
              streak (settings (state ?B)) = plusOne (streak (settings (state A)))) \<and>
           (\<not> completedOnce (data (state ?B)) \<longrightarrow>
              streak (settings (state ?B)) = streak (settings (state A)))"
  proof (cases "pending A = []")
    case True
    then show ?thesis
      using assms(2) by (simp add: all_done_iff_pending pending_def)
  next
    case False
    from fold_onToggle_pending [OF assms(3) assms(2) refl False] show ?thesis
      by simp
  qed
  from B assms(1) have ne: "items (data (state ?B)) \<noteq> []"
    by (metis map_is_Nil_conv)
  from B ne
  show "map item_id (items (data (state (completeAll A)))) = map item_id (items (data (state A)))"
    and "list_all item_done (items (data (state (completeAll A))))"
    and "completedOnce (data (state (completeAll A)))"
    and "streak (settings (state (completeAll A))) = plusOne (streak (settings (state A)))"
    by (simp_all add: completeAll_def runProgress_eq)
qed


lemma plusOne_exact: "- (2 ^ 53) \<le> n \<Longrightarrow> n < 2 ^ 53 \<Longrightarrow> plusOne n = n + 1"
  by (simp add: plusOne_def)

lemma setAll_then_check:
  assumes "items (data (state A)) \<noteq> []"
  shows "completedOnce (data (state (runProgress (setAll True A))))"
    and "streak (settings (state (runProgress (setAll True A)))) = plusOne (streak (settings (state A)))"
    and "list_all item_done (items (data (state (runProgress (setAll True A)))))"
  using assms
  by (simp_all add: setAll_def updateData_eq runProgress_eq list_all_iff)

section \<open>Strings\<close>

lemma asc_Nil_iff [simp]: "asc s = [] \<longleftrightarrow> s = []"
  by (simp add: asc_def)

lemma length_asc [simp]: "length (asc s) = length s"
  by (simp add: asc_def)

lemma dropWhile_hd: "xs \<noteq> [] \<Longrightarrow> \<not> P (hd xs) \<Longrightarrow> dropWhile P xs = xs"
  by (cases xs) simp_all

lemma trim_ends:
  assumes "trim s \<noteq> []"
  shows "\<not> isSpace (hd (trim s))" and "\<not> isSpace (last (trim s))"
proof -
  let ?u = "dropWhile isSpace s"
  let ?v = "dropWhile isSpace (rev ?u)"
  from assms have v: "?v \<noteq> []" by (simp add: trim_def)
  then have hv: "\<not> isSpace (hd ?v)" by (rule hd_dropWhile)
  have u: "?u \<noteq> []"
  proof
    assume a: "?u = []"
    have "?v = dropWhile isSpace (rev [])" by (simp only: a)
    then have "?v = []" by simp
    with v show False by simp
  qed
  then have hu: "\<not> isSpace (hd ?u)" by (rule hd_dropWhile)
  have "rev ?u = takeWhile isSpace (rev ?u) @ ?v" by simp
  then have "?u = rev ?v @ rev (takeWhile isSpace (rev ?u))"
    by (metis rev_append rev_rev_ident)
  with v have "hd ?u = hd (rev ?v)"
    by (metis hd_append2 rev_is_Nil_conv)
  with hu show "\<not> isSpace (hd (trim s))" by (simp add: trim_def)
  from hv v show "\<not> isSpace (last (trim s))" by (simp add: trim_def last_rev)
qed

lemma trim_fixed:
  assumes "s \<noteq> []" and "\<not> isSpace (hd s)" and "\<not> isSpace (last s)"
  shows "trim s = s"
proof -
  from assms(1,2) have "dropWhile isSpace s = s" by (rule dropWhile_hd)
  moreover from assms(1,3) have "dropWhile isSpace (rev s) = rev s"
    by (intro dropWhile_hd) (simp_all add: hd_rev)
  ultimately show ?thesis by (simp add: trim_def)
qed

lemma trim_Nil [simp]: "trim [] = []"
  by (simp add: trim_def)

lemma trim_idem: "trim (trim s) = trim s"
proof (cases "trim s = []")
  case True
  then show ?thesis by simp
next
  case False
  from False trim_ends [OF False] show ?thesis by (rule trim_fixed)
qed

section \<open>What the repair and the load return\<close>

lemma presetFor_Entry:
  "presetFor m = Entry p \<Longrightarrow> p \<in> {salida, viaje, gira, playa, frio}"
  by (auto simp add: presetFor_def PRESETS_def split: if_splits)

lemma newPreset_Some:
  assumes "newPreset uid m k = (Some D, k')"
  obtains p where "presetFor m = Entry p"
    and "D = \<lparr>version = 2, mode = m, cats = p_cats p,
              items = materialize uid (p_items p) k, completedOnce = False\<rparr>"
    and "k' = k + length (p_items p)"
  using assms by (auto simp add: newPreset_def split: found.splits)

lemma repairData_Some:
  assumes "repairData uid d fm k = (Some D, k')"
  obtains (preset) m k1 where "newPreset uid m k1 = (Some D, k')"
  | (repaired) m cs "is" k1 fb where
      "modeOf d fm = Some m" and "catsField d = Some (Some cs)" and "cs \<noteq> []"
      and "itemsField uid d k = (Some (Some is), k1)"
      and "fb \<in> cat_id ` set cs"
      and "uniqueIds uid
             (map (\<lambda>it. if item_cat it \<notin> cat_id ` set cs then it\<lparr>item_cat := fb\<rparr> else it) is)
             {} k1 = (items D, k')"
      and "cats D = cs" and "mode D = m" and "version D = 2"
      and "completedOnce D = truthy (get d (asc ''__completedOnce''))"
proof (cases "\<not> truthy d \<or> \<not> isObject d")
  case True
  with assms that(1) show ?thesis
    by (simp add: repairData_def)
next
  case False
  with assms obtain m cs0 is0 k1 where
      m: "modeOf d fm = Some m" and c: "catsField d = Some cs0"
      and i: "itemsField uid d k = (Some is0, k1)"
      and r: "(case (cs0, is0) of
                 (Some cs, Some is) \<Rightarrow>
                   if cs = [] then newPreset uid m k1
                   else
                     (let catIds = set (map cat_id cs);
                          fallbackCat = (if asc ''otros'' \<in> catIds then asc ''otros'' else cat_id (hd cs));
                          is1 = map (\<lambda>it. if item_cat it \<notin> catIds then it\<lparr>item_cat := fallbackCat\<rparr> else it) is;
                          (is2, k2) = uniqueIds uid is1 {} k1
                      in (Some \<lparr>version = 2, mode = m, cats = cs, items = is2,
                                 completedOnce = truthy (get d (asc ''__completedOnce''))\<rparr>, k2))
               | _ \<Rightarrow> newPreset uid m k1) = (Some D, k')"
    by (auto simp add: repairData_def split: option.splits prod.splits)
  show ?thesis
  proof (cases "\<exists>cs is. cs0 = Some cs \<and> is0 = Some is \<and> cs \<noteq> []")
    case False
    with r have "newPreset uid m k1 = (Some D, k')"
      by (auto split: option.splits if_splits)
    then show ?thesis by (rule that(1))
  next
    case True
    then obtain cs "is" where e: "cs0 = Some cs" "is0 = Some is" "cs \<noteq> []"
      by blast
    let ?fb = "if asc ''otros'' \<in> cat_id ` set cs then asc ''otros'' else cat_id (hd cs)"
    from e(3) have fb: "?fb \<in> cat_id ` set cs"
      by (cases cs) auto
    obtain is2 k2 where u: "uniqueIds uid
        (map (\<lambda>it. if item_cat it \<notin> cat_id ` set cs then it\<lparr>item_cat := ?fb\<rparr> else it) is) {} k1 = (is2, k2)"
      by (cases "uniqueIds uid
        (map (\<lambda>it. if item_cat it \<notin> cat_id ` set cs then it\<lparr>item_cat := ?fb\<rparr> else it) is) {} k1")
    from r e u have D: "D = \<lparr>version = 2, mode = m, cats = cs, items = is2,
                           completedOnce = truthy (get d (asc ''__completedOnce''))\<rparr>" and k: "k' = k2"
      by (simp_all add: Let_def)
    show ?thesis
      using m c i fb u D k e
      by (intro that(2) [of m cs "is" k1 ?fb]) simp_all
  qed
qed

lemma loadData_Some:
  assumes "loadData parse uid a st k = (Some D, k')"
  obtains (preset) m k1 where "newPreset uid m k1 = (Some D, k')"
  | (stored) raw d where "st = Raw raw" and "parse raw = Some d"
      and "repairData uid d (resolveMode a) k = (Some D, k')"
  using assms
  by (auto simp add: loadData_def loadTry_def split: if_splits option.splits prod.splits stored.splits)

lemma trim_otros: "trim (asc ''otros'') = asc ''otros''"
  by (simp add: trim_def isSpace_def asc_def)

lemma repairCat_id:
  assumes "repairCat c = Some r"
  shows "cat_id r \<noteq> []" and "trim (cat_id r) = cat_id r"
  using assms
  by (auto simp add: repairCat_def trim_idem trim_otros split: option.splits if_splits)

lemma mapCats_ids:
  "mapCats xs = Some cs \<Longrightarrow> list_all (\<lambda>c. cat_id c \<noteq> [] \<and> trim (cat_id c) = cat_id c) cs"
proof (induction xs arbitrary: cs)
  case Nil
  then show ?case by simp
next
  case (Cons x xs)
  then show ?case
    by (auto simp add: repairCat_id split: option.splits)
qed

lemma catsField_ids:
  "catsField d = Some (Some cs) \<Longrightarrow>
     list_all (\<lambda>c. cat_id c \<noteq> [] \<and> trim (cat_id c) = cat_id c) cs"
  by (auto simp add: catsField_def mapCats_ids split: jsval.splits)

lemma preset_cat_ids:
  assumes "p \<in> {salida, viaje, gira, playa, frio}"
  shows "list_all (\<lambda>c. cat_id c \<noteq> [] \<and> trim (cat_id c) = cat_id c) (p_cats p)"
    and "distinct (map cat_id (p_cats p))"
  using assms
  by (auto simp add: salida_def viaje_def gira_def playa_def frio_def C_def trim_def isSpace_def asc_def)

lemma uniqueIds_cats: "map item_cat (fst (uniqueIds uid its seen k)) = map item_cat its"
  by (induction its arbitrary: seen k) (simp_all add: split_def Let_def)

lemma materialize_cats: "map item_cat (materialize uid xs k) = map t_cat xs"
  by (induction xs arbitrary: k) simp_all

lemma preset_cats_known:
  assumes "p \<in> {salida, viaje, gira, playa, frio}"
  shows "list_all (\<lambda>c. c \<in> cat_id ` set (p_cats p)) (map t_cat (p_items p))"
  using assms
  by (auto simp add: salida_def viaje_def gira_def playa_def frio_def C_def T_def asc_def)

lemma catsKnown_cats: "catsKnown D \<longleftrightarrow> list_all (\<lambda>c. c \<in> cat_id ` set (cats D)) (map item_cat (items D))"
  by (simp add: catsKnown_def list_all_iff)

lemma newPreset_catsKnown:
  assumes "newPreset uid m k = (Some D, k')"
  shows "catsKnown D"
proof -
  from assms obtain p where p: "presetFor m = Entry p"
    and D: "D = \<lparr>version = 2, mode = m, cats = p_cats p,
                    items = materialize uid (p_items p) k, completedOnce = False\<rparr>"
    by (rule newPreset_Some)
  from p have "p \<in> {salida, viaje, gira, playa, frio}"
    by (rule presetFor_Entry)
  then have "list_all (\<lambda>c. c \<in> cat_id ` set (p_cats p)) (map t_cat (p_items p))"
    by (rule preset_cats_known)
  then show ?thesis
    by (simp add: D catsKnown_cats materialize_cats)
qed

lemma repoint_known:
  "fb \<in> S \<Longrightarrow>
   list_all (\<lambda>c. c \<in> S)
     (map item_cat (map (\<lambda>it. if item_cat it \<notin> S then it\<lparr>item_cat := fb\<rparr> else it) is))"
  by (auto simp add: list_all_iff)

lemma repairData_catsKnown:
  assumes "repairData uid d fm k = (Some D, k')"
  shows "catsKnown D"
  using assms
proof (cases rule: repairData_Some)
  case (preset m k1)
  then show ?thesis by (rule newPreset_catsKnown)
next
  case (repaired m cs "is" k1 fb)
  let ?is1 = "map (\<lambda>it. if item_cat it \<notin> cat_id ` set cs then it\<lparr>item_cat := fb\<rparr> else it) is"
  have "map item_cat (fst (uniqueIds uid ?is1 {} k1)) = map item_cat ?is1"
    by (rule uniqueIds_cats)
  then have "map item_cat (items D) = map item_cat ?is1"
    by (simp only: repaired(6) fst_conv)
  with repoint_known [OF repaired(5)] repaired(7) show ?thesis
    by (simp add: catsKnown_cats)
qed

lemma loadData_catsKnown:
  assumes "loadData parse uid a st k = (Some D, k')"
  shows "catsKnown D"
  using assms
  by (cases rule: loadData_Some) (auto intro: newPreset_catsKnown repairData_catsKnown)

lemma toggleFirst_cats: "map item_cat (toggleFirst c xs) = map item_cat xs"
  by (induction xs) simp_all

lemma toggleDone_data:
  "data (state (toggleDone i A)) = data (state A) \<or>
   data (state (toggleDone i A)) =
     (data (state A))\<lparr>items := toggleFirst (ensureString (Some i) 120) (items (data (state A))),
                      completedOnce := False\<rparr>"
  by (simp add: toggleDone_def updateData_eq Let_def split: option.splits)

lemma deleteItem_data:
  "data (state (deleteItem i A)) = data (state A) \<or>
   data (state (deleteItem i A)) =
     (data (state A))\<lparr>items := filter (\<lambda>x. item_id x \<noteq> ensureString (Some i) 120) (items (data (state A))),
                      completedOnce := False\<rparr>"
  by (simp add: deleteItem_def updateData_eq Let_def)

lemma changeMode_data:
  "(fst (changeMode uid m A) = Throws \<and> data (state (snd (changeMode uid m A))) = data (state A)) \<or>
   (\<exists>m' k k'. fst (changeMode uid m A) = Returns \<and>
      newPreset uid m' k = (Some (data (state (snd (changeMode uid m A)))), k'))"
  by (auto simp add: changeMode_def updateSettings_eq setState_Plain merge_def Let_def
      split: prod.splits option.splits)

lemma wipeAll_data:
  "\<exists>k'. fst (wipeAll uid A) = Returns \<and>
      newPreset uid (asc ''salida'') (drawn A) = (Some (data (state (snd (wipeAll uid A)))), k')"
  by (auto simp add: wipeAll_def setState_Plain merge_def Let_def newPreset_def presetFor_def PRESETS_def asc_def
      split: prod.splits option.splits)

lemmas eval_defs =
  loadData_def loadTry_def parseOnly_def resolveMode_def DEFAULT_SETTINGS_def repairData_def
  modeOf_def orElse_def catsField_def itemsField_def repairCat_def repairItem_def emojiOf_def
  trim_def isSpace_def Let_def asc_def

lemma load_sample:
  "loadData (parseOnly storedText storedValue) sampleUid ANothing (Raw storedText) 0 = (Some sampleDoc, 0)"
  by (simp add: eval_defs storedText_def storedValue_def sampleDoc_def)

section \<open>Item ids\<close>

lemma materialize_ids: "map item_id (materialize uid xs k) = map uid [k..<k + length xs]"
proof (induction xs arbitrary: k)
  case Nil
  then show ?case by simp
next
  case (Cons x xs)
  have "[k..<k + length (x # xs)] = k # [Suc k..<Suc k + length xs]"
    by (simp add: upt_rec)
  with Cons show ?case by simp
qed

lemma materialize_distinct: "inj uid \<Longrightarrow> distinct (map item_id (materialize uid xs k))"
  by (simp add: materialize_ids distinct_map inj_on_def inj_def)

lemma newPreset_distinct:
  assumes "inj uid" and "newPreset uid m k = (Some D, k')"
  shows "distinct (itemIds D)"
  using assms(2)
  by (rule newPreset_Some) (simp add: itemIds_def materialize_distinct [OF assms(1)])

text \<open>The loop for unique ids.\<close>

lemma uniqueIds_distinct:
  assumes "inj uid"
    and "\<forall>j\<ge>k. uid j \<notin> seen \<and> uid j \<notin> item_id ` set its"
  shows "distinct (map item_id (fst (uniqueIds uid its seen k))) \<and>
         item_id ` set (fst (uniqueIds uid its seen k)) \<inter> seen = {}"
  using assms(2)
proof (induction its arbitrary: seen k)
  case Nil
  then show ?case by simp
next
  case (Cons it its)
  show ?case
  proof (cases "item_id it = [] \<or> item_id it \<in> seen")
    case True
    have "\<forall>j\<ge>Suc k. uid j \<notin> insert (uid k) seen \<and> uid j \<notin> item_id ` set its"
    proof (intro allI impI)
      fix j assume j: "Suc k \<le> j"
      then have "uid j \<noteq> uid k"
        using assms(1) by (auto dest: injD)
      with Cons.prems j show "uid j \<notin> insert (uid k) seen \<and> uid j \<notin> item_id ` set its"
        by auto
    qed
    from Cons.IH [OF this] Cons.prems True show ?thesis
      by (auto simp add: split_def Let_def)
  next
    case False
    have "\<forall>j\<ge>k. uid j \<notin> insert (item_id it) seen \<and> uid j \<notin> item_id ` set its"
      using Cons.prems by auto
    from Cons.IH [OF this] False show ?thesis
      by (auto simp add: split_def Let_def)
  qed
qed

lemma repairItem_id:
  assumes "repairItem uid x k = (Some i, k')"
  shows "(truthy (get x (asc ''id'')) \<and> toStr (get x (asc ''id'')) = Some (item_id i) \<and> k' = k) \<or>
         (\<not> truthy (get x (asc ''id'')) \<and> item_id i = uid k \<and> k' = Suc k)"
  using assms
  by (auto simp add: repairItem_def Let_def split: if_splits option.splits)

lemma mapItems_ids:
  assumes "mapItems uid xs k = (Some is, k1)"
  shows "k \<le> k1 \<and>
         item_id ` set is \<subseteq>
           set (List.map_filter (\<lambda>x. if truthy (get x (asc ''id'')) then toStr (get x (asc ''id'')) else None) xs)
           \<union> uid ` {k..<k1}"
  using assms
proof (induction xs arbitrary: k "is")
  case Nil
  then show ?case by simp
next
  case (Cons x xs)
  from Cons.prems obtain i k' is' where
      i: "repairItem uid x k = (Some i, k')" and m: "mapItems uid xs k' = (Some is', k1)"
      and e: "is = i # is'"
    by (auto split: prod.splits option.splits)
  from Cons.IH [OF m] have ih: "k' \<le> k1"
      "item_id ` set is' \<subseteq>
         set (List.map_filter (\<lambda>x. if truthy (get x (asc ''id'')) then toStr (get x (asc ''id'')) else None) xs)
         \<union> uid ` {k'..<k1}"
    by simp_all
  from repairItem_id [OF i] have kk: "k \<le> k'" by auto
  have sub: "uid ` {k'..<k1} \<subseteq> uid ` {k..<k1}"
    using kk by (intro image_mono) auto
  from repairItem_id [OF i] show ?case
  proof
    assume "truthy (get x (asc ''id'')) \<and> toStr (get x (asc ''id'')) = Some (item_id i) \<and> k' = k"
    with ih e show ?thesis
      by (auto simp add: map_filter_simps)
  next
    assume a: "\<not> truthy (get x (asc ''id'')) \<and> item_id i = uid k \<and> k' = Suc k"
    then have "uid k \<in> uid ` {k..<k1}"
      using ih(1) by auto
    with a ih e sub show ?thesis
      by (auto simp add: map_filter_simps)
  qed
qed

lemma repoint_ids:
  "map item_id (map (\<lambda>it. if item_cat it \<notin> S then it\<lparr>item_cat := fb\<rparr> else it) is) = map item_id is"
  by (induction "is") simp_all

lemma repairData_distinct:
  assumes f: "freshIds uid (storedIds d)"
    and r: "repairData uid d fm k = (Some D, k')"
  shows "distinct (itemIds D)"
  using r
proof (cases rule: repairData_Some)
  case (preset m k1)
  from f have "inj uid" by (simp add: freshIds_def)
  then show ?thesis using preset by (rule newPreset_distinct)
next
  case (repaired m cs "is" k1 fb)
  let ?is1 = "map (\<lambda>it. if item_cat it \<notin> cat_id ` set cs then it\<lparr>item_cat := fb\<rparr> else it) is"
  from f have inj: "inj uid" and disj: "range uid \<inter> set (storedIds d) = {}"
    by (simp_all add: freshIds_def)
  from repaired(4) obtain xs where xs: "get d (asc ''items'') = JArr xs"
      and m: "mapItems uid xs k = (Some is, k1)"
    by (auto simp add: itemsField_def split: jsval.splits prod.splits)
  from mapItems_ids [OF m] xs
  have sub: "item_id ` set is \<subseteq> set (storedIds d) \<union> uid ` {k..<k1}"
    by (simp add: storedIds_def)
  have "set (map item_id ?is1) = set (map item_id is)"
    by (simp only: repoint_ids)
  then have ids1: "item_id ` set ?is1 = item_id ` set is"
    by (simp only: set_map)
  have "\<forall>j\<ge>k1. uid j \<notin> {} \<and> uid j \<notin> item_id ` set ?is1"
  proof (intro allI impI conjI)
    fix j assume j: "k1 \<le> j"
    show "uid j \<notin> {}" by simp
    have "uid j \<notin> set (storedIds d)"
      using disj by auto
    moreover have "uid j \<notin> uid ` {k..<k1}"
      using inj j by (auto dest: injD)
    ultimately have "uid j \<notin> set (storedIds d) \<union> uid ` {k..<k1}"
      by simp
    with sub have "uid j \<notin> item_id ` set is"
      by blast
    then show "uid j \<notin> item_id ` set ?is1"
      unfolding ids1 .
  qed
  from uniqueIds_distinct [OF inj this] repaired(6) show ?thesis
    by (simp add: itemIds_def)
qed

lemma loadData_distinct:
  assumes f: "freshIds uid (storedItemIds parse st)"
    and l: "loadData parse uid a st k = (Some D, k')"
  shows "distinct (itemIds D)"
  using l
proof (cases rule: loadData_Some)
  case (preset m k1)
  from f have "inj uid" by (simp add: freshIds_def)
  then show ?thesis using preset by (rule newPreset_distinct)
next
  case (stored raw d)
  with f have "freshIds uid (storedIds d)"
    by (simp add: storedItemIds_def)
  then show ?thesis using stored(3) by (rule repairData_distinct)
qed

lemma load_dup:
  "loadData (parseOnly dupText dupValue) sampleUid ANothing (Raw dupText) 0 = (Some dupDoc, 2)"
  by (simp add: eval_defs dupText_def dupValue_def dupDoc_def sampleUid_def)

lemma inj_sampleUid: "inj sampleUid"
proof (rule injI)
  fix x y assume "sampleUid x = sampleUid y"
  then have "length (sampleUid x) = length (sampleUid y)" by simp
  then show "x = y" by (simp add: sampleUid_def)
qed

lemma sampleUid_hd: "hd (sampleUid n) = 0x61"
  by (simp add: sampleUid_def asc_def)

lemma fresh_sampleUid_dup: "freshIds sampleUid (storedItemIds (parseOnly dupText dupValue) (Raw dupText))"
proof -
  have s: "storedItemIds (parseOnly dupText dupValue) (Raw dupText) = [asc ''p1'', asc ''p1'']"
    by (simp add: storedItemIds_def storedIds_def parseOnly_def dupValue_def map_filter_simps asc_def)
  have ne: "sampleUid n \<noteq> asc ''p1''" for n
    using sampleUid_hd [of n] by (auto simp add: asc_def)
  have "asc ''p1'' \<notin> range sampleUid"
  proof
    assume "asc ''p1'' \<in> range sampleUid"
    then obtain n where "asc ''p1'' = sampleUid n" by (rule rangeE)
    with ne [of n] show False by simp
  qed
  then have "range sampleUid \<inter> set [asc ''p1'', asc ''p1''] = {}"
    by simp
  then show ?thesis
    unfolding freshIds_def s using inj_sampleUid by (rule conjI [rotated])
qed

lemma createItem_data:
  "data (state (snd (createItem uid n A))) =
     (if trim (orEmpty (n_name n)) = [] then data (state A)
      else (data (state A))\<lparr>items :=
              \<lparr>item_id = (case n_uid n of Some i \<Rightarrow> i | None \<Rightarrow> uid (drawn A)),
               item_cat = cleanCatOf n, item_name = ensureString (n_name n) 60,
               item_emoji = normalizeEmoji (n_emoji n), item_done = False\<rparr> # items (data (state A)),
            completedOnce := False\<rparr>)"
  by (auto simp add: createItem_def ensureString_def updateData_eq Let_def split: option.splits)

section \<open>Values without structure\<close>

lemma length_materialize [simp]: "length (materialize uid xs k) = length xs"
  by (induction xs arbitrary: k) simp_all





section \<open>Repairing twice\<close>

lemma get_catJs:
  "get (catJs c) (asc ''id'') = JStr (cat_id c)"
  "get (catJs c) (asc ''name'') = JStr (cat_name c)"
  "get (catJs c) (asc ''emoji'') = emojiJs (cat_emoji c)"
  by (simp_all add: catJs_def asc_def)

lemma get_itemJs:
  "get (itemJs i) (asc ''id'') = JStr (item_id i)"
  "get (itemJs i) (asc ''cat'') = JStr (item_cat i)"
  "get (itemJs i) (asc ''name'') = JStr (item_name i)"
  "get (itemJs i) (asc ''emoji'') = emojiJs (item_emoji i)"
  "get (itemJs i) (asc ''done'') = JBool (item_done i)"
  by (simp_all add: itemJs_def asc_def)

lemma get_docJs:
  "get (docJs D) (asc ''mode'') = JStr (mode D)"
  "get (docJs D) (asc ''cats'') = JArr (map catJs (cats D))"
  "get (docJs D) (asc ''items'') = JArr (map itemJs (items D))"
  "get (docJs D) (asc ''__completedOnce'') = JBool (completedOnce D)"
  by (simp_all add: docJs_def asc_def)

lemma emojiOf_emojiJs: "shortEmoji e \<Longrightarrow> emojiOf (emojiJs e) = Some e"
  by (cases e) (simp_all add: shortEmoji_def emojiOf_def emojiJs_def)

lemma repairCat_settled: "settledCat c \<Longrightarrow> repairCat (catJs c) = Some c"
  by (simp add: settledCat_def repairCat_def get_catJs orElse_def emojiOf_emojiJs)

lemma mapCats_settled: "list_all settledCat cs \<Longrightarrow> mapCats (map catJs cs) = Some cs"
  by (induction cs) (simp_all add: repairCat_settled)

lemma repairItem_settled:
  "settledItem i \<Longrightarrow> item_cat i \<noteq> [] \<Longrightarrow> repairItem uid (itemJs i) k = (Some i, k)"
  by (simp add: settledItem_def repairItem_def get_itemJs orElse_def emojiOf_emojiJs)

lemma mapItems_settled:
  "list_all (\<lambda>i. settledItem i \<and> item_cat i \<noteq> []) is \<Longrightarrow>
     mapItems uid (map itemJs is) k = (Some is, k)"
  by (induction "is") (simp_all add: repairItem_settled)

lemma uniqueIds_settled:
  "distinct (map item_id is) \<Longrightarrow> [] \<notin> item_id ` set is \<Longrightarrow> item_id ` set is \<inter> seen = {} \<Longrightarrow>
     uniqueIds uid is seen k = (is, k)"
proof (induction "is" arbitrary: seen)
  case Nil
  then show ?case by simp
next
  case (Cons i "is")
  from Cons.prems have a: "item_id i \<noteq> []" "item_id i \<notin> seen" by auto
  from Cons.prems have "item_id ` set is \<inter> insert (item_id i) seen = {}" by auto
  with Cons.prems have "uniqueIds uid is (insert (item_id i) seen) k = (is, k)"
    by (intro Cons.IH) auto
  with a show ?case by simp
qed

lemma repoint_settled:
  "list_all (\<lambda>i. item_cat i \<in> S) is \<Longrightarrow>
     map (\<lambda>it. if item_cat it \<notin> S then it\<lparr>item_cat := fb\<rparr> else it) is = is"
  by (induction "is") simp_all

lemma repair_fixed:
  assumes "settled D"
  shows "repairData uid (docJs D) fm k = (Some D, k)"
proof -
  from assms have v: "version D = 2" and m: "mode D \<noteq> []" and ne: "cats D \<noteq> []"
    and cs: "list_all settledCat (cats D)" and its: "list_all settledItem (items D)"
    and known: "list_all (\<lambda>i. item_cat i \<in> cat_id ` set (cats D)) (items D)"
    and dist: "distinct (map item_id (items D))"
    by (simp_all add: settled_def catsKnown_def itemIds_def)
  have catne: "list_all (\<lambda>i. settledItem i \<and> item_cat i \<noteq> []) (items D)"
    using its known cs by (auto simp add: list_all_iff settledCat_def)
  have ids: "[] \<notin> item_id ` set (items D)"
    using its by (auto simp add: list_all_iff settledItem_def)
  have 1: "modeOf (docJs D) fm = Some (mode D)"
    using m by (simp add: modeOf_def get_docJs orElse_def)
  have 2: "catsField (docJs D) = Some (Some (cats D))"
    by (simp add: catsField_def get_docJs mapCats_settled [OF cs])
  have 3: "itemsField uid (docJs D) k = (Some (Some (items D)), k)"
    by (simp add: itemsField_def get_docJs mapItems_settled [OF catne])
  have 4: "uniqueIds uid (items D) {} k = (items D, k)"
    using dist ids by (intro uniqueIds_settled) simp_all
  have 5: "truthy (docJs D)" "isObject (docJs D)"
    by (simp_all add: docJs_def)
  have "repairData uid (docJs D) fm k =
      (Some \<lparr>version = 2, mode = mode D, cats = cats D, items = items D,
             completedOnce = completedOnce D\<rparr>, k)"
    using ne by (simp add: repairData_def 1 2 3 4 5 get_docJs repoint_settled [OF known])
  with v show ?thesis by simp
qed

lemma newPreset_mode: "newPreset uid m k = (Some D, k') \<Longrightarrow> mode D = m"
  by (erule newPreset_Some) simp

lemma repairData_mode:
  assumes "repairData uid d fm k = (Some D, k')"
  shows "resolvedMode d fm = Some (mode D)"
  using assms
proof (cases rule: repairData_Some)
  case (repaired m cs "is" k1 fb)
  moreover from assms have "truthy d \<and> isObject d"
    using repaired(2) by (cases d) (auto simp add: catsField_def)
  ultimately show ?thesis by (simp add: resolvedMode_def)
next
  case (preset m k1)
  show ?thesis
  proof (cases "\<not> truthy d \<or> \<not> isObject d")
    case True
    with assms have "newPreset uid fm k = (Some D, k')"
      by (simp add: repairData_def)
    with True show ?thesis by (simp add: resolvedMode_def newPreset_mode)
  next
    case False
    with assms obtain m' where m': "modeOf d fm = Some m'"
      by (auto simp add: repairData_def split: option.splits)
    with False assms have "mode D = m'"
      by (auto simp add: repairData_def Let_def newPreset_mode
          split: option.splits prod.splits if_splits)
    with False m' show ?thesis by (simp add: resolvedMode_def)
  qed
qed

lemma resolvedMode_nonempty:
  assumes "resolvedMode d fm = Some m" and "fm \<noteq> []" and "nonEmptyText (get d (asc ''mode''))"
  shows "m \<noteq> []"
  using assms
  by (auto simp add: resolvedMode_def modeOf_def orElse_def nonEmptyText_def split: if_splits)

lemma emojiOf_short: "emojiOf e = Some x \<Longrightarrow> nonEmptyText e \<Longrightarrow> shortEmoji x"
  by (auto simp add: emojiOf_def nonEmptyText_def shortEmoji_def split: if_splits)

lemma trim_Otros: "trim (asc ''Otros'') = asc ''Otros''"
  by (simp add: trim_def isSpace_def asc_def)

lemma repairCat_settles:
  assumes "repairCat c = Some r" and "nonEmptyText (get c (asc ''emoji''))"
  shows "settledCat r"
proof -
  from assms(1) obtain e where e: "emojiOf (get c (asc ''emoji'')) = Some e" and r: "cat_emoji r = e"
    by (auto simp add: repairCat_def split: option.splits)
  from assms(1) have "cat_name r \<noteq> []" "trim (cat_name r) = cat_name r"
    by (auto simp add: repairCat_def trim_idem trim_Otros split: option.splits if_splits)
  with repairCat_id [OF assms(1)] emojiOf_short [OF e assms(2)] r show ?thesis
    by (simp add: settledCat_def)
qed

lemma mapCats_settles:
  "mapCats xs = Some cs \<Longrightarrow> list_all (\<lambda>c. nonEmptyText (get c (asc ''emoji''))) xs \<Longrightarrow>
     list_all settledCat cs"
proof (induction xs arbitrary: cs)
  case Nil
  then show ?case by simp
next
  case (Cons x xs)
  then show ?case
    by (auto simp add: repairCat_settles split: option.splits)
qed

lemma repairItem_body:
  assumes "repairItem uid x k = (Some i, k')"
    and "nonEmptyText (get x (asc ''name''))" and "nonEmptyText (get x (asc ''emoji''))"
  shows "itemBody i"
proof -
  from assms(1) obtain n e where
      n: "toStr (orElse (get x (asc ''name'')) (JStr (asc ''Sin nombre''))) = Some n"
      and e: "emojiOf (get x (asc ''emoji'')) = Some e"
      and i: "item_name i = take 80 n" "item_emoji i = e"
    by (auto simp add: repairItem_def Let_def split: if_splits option.splits)
  from n assms(2) have "n \<noteq> []"
    by (auto simp add: orElse_def nonEmptyText_def split: if_splits)
  with i emojiOf_short [OF e assms(3)] show ?thesis
    by (simp add: itemBody_def)
qed

lemma mapItems_body:
  "mapItems uid xs k = (Some is, k') \<Longrightarrow>
   list_all (\<lambda>i. nonEmptyText (get i (asc ''name'')) \<and> nonEmptyText (get i (asc ''emoji''))) xs \<Longrightarrow>
     list_all itemBody is"
proof (induction xs arbitrary: k "is")
  case Nil
  then show ?case by simp
next
  case (Cons x xs)
  from Cons.prems(1) obtain i k1 is' where
      i: "repairItem uid x k = (Some i, k1)" and m: "mapItems uid xs k1 = (Some is', k')"
      and e: "is = i # is'"
    by (auto split: prod.splits option.splits)
  from Cons.prems(2) repairItem_body [OF i] have "itemBody i" by simp
  moreover from Cons.IH [OF m] Cons.prems(2) have "list_all itemBody is'" by simp
  ultimately show ?case by (simp add: e)
qed

lemma repoint_body:
  "list_all itemBody is \<Longrightarrow>
     list_all itemBody (map (\<lambda>it. if item_cat it \<notin> S then it\<lparr>item_cat := fb\<rparr> else it) is)"
  by (induction "is") (simp_all add: itemBody_def)

lemma uniqueIds_body:
  "list_all itemBody is \<Longrightarrow> list_all itemBody (fst (uniqueIds uid is seen k))"
  by (induction "is" arbitrary: seen k) (simp_all add: split_def Let_def itemBody_def)

lemma uniqueIds_nonempty:
  "[] \<notin> range uid \<Longrightarrow> list_all (\<lambda>i. item_id i \<noteq> []) (fst (uniqueIds uid is seen k))"
proof (induction "is" arbitrary: seen k)
  case Nil
  then show ?case by simp
next
  case (Cons i "is")
  from Cons.prems have "uid k \<noteq> []"
    by (metis rangeI)
  with Cons show ?case
    by (simp add: split_def Let_def)
qed

lemma settledItem_iff: "settledItem i \<longleftrightarrow> item_id i \<noteq> [] \<and> itemBody i"
  by (auto simp add: settledItem_def itemBody_def)

lemma preset_settled:
  assumes "p \<in> {salida, viaje, gira, playa, frio}"
  shows "p_cats p \<noteq> []" and "list_all settledCat (p_cats p)"
    and "list_all (\<lambda>t. t_name t \<noteq> [] \<and> length (t_name t) \<le> 80 \<and> length (t_emoji t) \<le> 4) (p_items p)"
  using assms
  by (auto simp add: salida_def viaje_def gira_def playa_def frio_def C_def T_def settledCat_def
      shortEmoji_def trim_def isSpace_def asc_def)

lemma materialize_settled:
  "[] \<notin> range uid \<Longrightarrow>
   list_all (\<lambda>t. t_name t \<noteq> [] \<and> length (t_name t) \<le> 80 \<and> length (t_emoji t) \<le> 4) xs \<Longrightarrow>
     list_all settledItem (materialize uid xs k)"
proof (induction xs arbitrary: k)
  case Nil
  then show ?case by simp
next
  case (Cons x xs)
  from Cons.prems(1) have "uid k \<noteq> []"
    by (metis rangeI)
  with Cons show ?case
    by (simp add: settledItem_def shortEmoji_def)
qed

lemma repairData_settles:
  assumes r: "repairData uid d fm k = (Some D, k')"
    and fm: "fm \<noteq> []" and pf: "plainFields d"
    and fr: "freshIds uid (storedIds d)" and ne: "[] \<notin> range uid"
  shows "settled D"
proof -
  from pf have "nonEmptyText (get d (asc ''mode''))"
    by (simp add: plainFields_def)
  with repairData_mode [OF r] fm have m: "mode D \<noteq> []"
    by (rule resolvedMode_nonempty)
  have known: "catsKnown D"
    using r by (rule repairData_catsKnown)
  have dist: "distinct (itemIds D)"
    using fr r by (rule repairData_distinct)
  have "version D = 2 \<and> cats D \<noteq> [] \<and> list_all settledCat (cats D) \<and> list_all settledItem (items D)"
    using r
  proof (cases rule: repairData_Some)
    case (preset m k1)
    then obtain p where p: "presetFor m = Entry p"
      and D: "D = \<lparr>version = 2, mode = m, cats = p_cats p,
                    items = materialize uid (p_items p) k1, completedOnce = False\<rparr>"
      by (rule newPreset_Some)
    from p have "p \<in> {salida, viaje, gira, playa, frio}"
      by (rule presetFor_Entry)
    note ps = preset_settled [OF this]
    from ps materialize_settled [OF ne ps(3)] show ?thesis
      by (simp add: D)
  next
    case (repaired m cs "is" k1 fb)
    let ?is1 = "map (\<lambda>it. if item_cat it \<notin> cat_id ` set cs then it\<lparr>item_cat := fb\<rparr> else it) is"
    from repaired(2) obtain xs where xs: "get d (asc ''cats'') = JArr xs" and mc: "mapCats xs = Some cs"
      by (auto simp add: catsField_def split: jsval.splits)
    from pf xs have "list_all (\<lambda>c. nonEmptyText (get c (asc ''emoji''))) xs"
      by (simp add: plainFields_def)
    with mc have c: "list_all settledCat cs"
      by (rule mapCats_settles)
    from repaired(4) obtain ys where ys: "get d (asc ''items'') = JArr ys"
        and mi: "mapItems uid ys k = (Some is, k1)"
      by (auto simp add: itemsField_def split: jsval.splits prod.splits)
    from pf ys have "list_all (\<lambda>i. nonEmptyText (get i (asc ''name'')) \<and>
                                  nonEmptyText (get i (asc ''emoji''))) ys"
      by (simp add: plainFields_def)
    with mi have "list_all itemBody is"
      by (rule mapItems_body)
    then have "list_all itemBody ?is1"
      by (rule repoint_body)
    then have "list_all itemBody (fst (uniqueIds uid ?is1 {} k1))"
      by (rule uniqueIds_body)
    moreover have "list_all (\<lambda>i. item_id i \<noteq> []) (fst (uniqueIds uid ?is1 {} k1))"
      using ne by (rule uniqueIds_nonempty)
    ultimately have "list_all settledItem (items D)"
      by (simp add: repaired(6) settledItem_iff list_all_iff)
    with c repaired show ?thesis by simp
  qed
  with m known dist show ?thesis
    by (simp add: settled_def)
qed

lemma sampleUid_nonempty: "[] \<notin> range sampleUid"
  by (auto simp add: sampleUid_def)

lemma plain_dup: "plainFields dupValue"
  by (simp add: plainFields_def nonEmptyText_def dupValue_def asc_def)

lemma fresh_dupValue: "freshIds sampleUid (storedIds dupValue)"
  using fresh_sampleUid_dup by (simp add: storedItemIds_def parseOnly_def)

lemma repair_dup: "repairData sampleUid dupValue (asc ''salida'') 0 = (Some dupDoc, 2)"
  by (simp add: eval_defs dupValue_def dupDoc_def sampleUid_def)

section \<open>Claims about the store and the actions\<close>

text \<open>
  C9, as stated: \<open>setState\<close> with an updater whose next state is the previous state calls no
  listener. The updater that returns the state it is given, \<open>s => s\<close>, returns a plain
  object, so \<open>setState\<close> spreads it into a new object: the state has the same value, it is
  not the same object, and both listeners of the sample application are called.
\<close>

theorem setState_noop_suppression_counterexample:
  "state (setState (Updater (\<lambda>s. Plain (whole s))) sampleApp) = state sampleApp \<and>
   calls sampleApp = [] \<and>
   calls (setState (Updater (\<lambda>s. Plain (whole s))) sampleApp) = [(0, 0, 1), (1, 0, 1)]"
  by (simp add: setState_Plain merge_whole sampleApp_def subscribe_def createStore_def)

text \<open>
  C9, amended: \<open>setState\<close> with an argument that is neither a function nor a plain object,
  and \<open>setState\<close> with an updater that returns something that is not a plain object, leave
  the application as it is: the state is the same object and no listener is called. With an
  updater that returns a plain object (also the previous state itself, or an object equal to
  it in value) and with a plain object as argument, the state becomes the merge of the
  previous state and that object, it is a new object, never the previous one, and every
  listener is called once with the previous and the new object.
\<close>

theorem setState_noop_suppression:
  "setState Other A = A \<and>
   (f (state A) = NotPlain \<longrightarrow> setState (Updater f) A = A) \<and>
   (f (state A) = Plain out \<longrightarrow>
      state (setState (Updater f) A) = merge (state A) out \<and>
      stateRef (setState (Updater f) A) \<noteq> stateRef A \<and>
      calls (setState (Updater f) A) =
        calls A @ map (\<lambda>fn. (fn, stateRef A, stateRef (setState (Updater f) A))) (listeners A)) \<and>
   state (setState (Partial p) A) = merge (state A) p \<and>
   stateRef (setState (Partial p) A) \<noteq> stateRef A \<and>
   calls (setState (Partial p) A) =
     calls A @ map (\<lambda>fn. (fn, stateRef A, stateRef (setState (Partial p) A))) (listeners A)"
  by (simp add: setState_Other setState_Plain)
     (simp add: setState_def nextState_def emit_def)

theorem setState_noop_suppression_witness:
  "(\<lambda>s. NotPlain) (state sampleApp) = NotPlain \<and>
   setState (Updater (\<lambda>s. NotPlain)) sampleApp = sampleApp \<and>
   (\<lambda>s. Plain (whole s)) (state sampleApp) = Plain (whole (state sampleApp)) \<and>
   state (setState (Updater (\<lambda>s. Plain (whole s))) sampleApp)
     = merge (state sampleApp) (whole (state sampleApp)) \<and>
   stateRef (setState (Updater (\<lambda>s. Plain (whole s))) sampleApp) \<noteq> stateRef sampleApp \<and>
   calls (setState (Updater (\<lambda>s. Plain (whole s))) sampleApp) =
     calls sampleApp @
       map (\<lambda>fn. (fn, stateRef sampleApp,
                   stateRef (setState (Updater (\<lambda>s. Plain (whole s))) sampleApp)))
         (listeners sampleApp)"
proof -
  have h1: "(\<lambda>s. NotPlain) (state sampleApp) = NotPlain"
    by simp
  have h2: "(\<lambda>s. Plain (whole s)) (state sampleApp) = Plain (whole (state sampleApp))"
    by simp
  from setState_noop_suppression [of sampleApp "\<lambda>s. NotPlain"]
       setState_noop_suppression [of sampleApp "\<lambda>s. Plain (whole s)" "whole (state sampleApp)"]
       h1 h2
  show ?thesis by blast
qed

text \<open>
  C5. When the name is empty after trimming, \<open>createItem\<close> returns the failure
  \<open>EMPTY_NAME\<close> and the application is unchanged. When the trimmed name is not empty, it
  returns \<open>ok\<close>, and the items are the old items with one new item in front: not done, its
  name the trimmed name cut to 60 code units, its emoji the trimmed emoji cut to 4 code units
  or \<open>null\<close> when that is empty; \<open>__completedOnce\<close> is false afterwards.
\<close>

theorem createItem_validation:
  "(trim (orEmpty (n_name a)) = [] \<longrightarrow>
      createItem uid a A = (Failed (asc ''EMPTY_NAME''), A)) \<and>
   (trim (orEmpty (n_name a)) \<noteq> [] \<longrightarrow>
      fst (createItem uid a A) = Ok \<and>
      items (data (state (snd (createItem uid a A)))) =
        \<lparr>item_id = (case n_uid a of Some i \<Rightarrow> i | None \<Rightarrow> uid (drawn A)),
         item_cat = cleanCatOf a,
         item_name = take 60 (trim (orEmpty (n_name a))),
         item_emoji = (if take 4 (trim (orEmpty (n_emoji a))) = [] then None
                       else Some (take 4 (trim (orEmpty (n_emoji a))))),
         item_done = False\<rparr> # items (data (state A)) \<and>
      \<not> completedOnce (data (state (snd (createItem uid a A)))))"
  by (auto simp add: createItem_def ensureString_def normalizeEmoji_def updateData_eq Let_def
      split: option.splits)

theorem createItem_validation_witness:
  "trim (orEmpty (n_name \<lparr>n_name = Some (asc ''   ''), n_emoji = None, n_cat = None, n_uid = None\<rparr>)) = [] \<and>
   createItem sampleUid \<lparr>n_name = Some (asc ''   ''), n_emoji = None, n_cat = None, n_uid = None\<rparr> sampleApp
     = (Failed (asc ''EMPTY_NAME''), sampleApp) \<and>
   trim (orEmpty (n_name \<lparr>n_name = Some (asc '' Visa ''), n_emoji = None, n_cat = Some (asc ''docs''), n_uid = None\<rparr>)) \<noteq> [] \<and>
   fst (createItem sampleUid \<lparr>n_name = Some (asc '' Visa ''), n_emoji = None, n_cat = Some (asc ''docs''), n_uid = None\<rparr> sampleApp) = Ok \<and>
   map item_name (items (data (state (snd (createItem sampleUid \<lparr>n_name = Some (asc '' Visa ''), n_emoji = None, n_cat = Some (asc ''docs''), n_uid = None\<rparr> sampleApp)))))
     = [asc ''Visa'', asc ''Pasaporte'', asc ''Reservas'']"
proof -
  have h1: "trim (orEmpty (n_name \<lparr>n_name = Some (asc ''   ''), n_emoji = None, n_cat = None, n_uid = None\<rparr>)) = []"
    by (simp add: orEmpty_def trim_def isSpace_def asc_def)
  have h2: "trim (orEmpty (n_name \<lparr>n_name = Some (asc '' Visa ''), n_emoji = None, n_cat = Some (asc ''docs''), n_uid = None\<rparr>)) \<noteq> []"
    by (simp add: orEmpty_def trim_def isSpace_def asc_def)
  have s: "map item_name (items (data (state sampleApp))) = [asc ''Pasaporte'', asc ''Reservas'']"
    by (simp add: sampleApp_def sampleDoc_def subscribe_def createStore_def)
  from createItem_validation [of "\<lparr>n_name = Some (asc ''   ''), n_emoji = None, n_cat = None, n_uid = None\<rparr>" sampleUid sampleApp]
       createItem_validation [of "\<lparr>n_name = Some (asc '' Visa ''), n_emoji = None, n_cat = Some (asc ''docs''), n_uid = None\<rparr>" sampleUid sampleApp]
       h1 h2 s
  show ?thesis by (simp add: orEmpty_def trim_def isSpace_def asc_def)
qed

text \<open>
  C6. For a key \<open>m\<close> of the preset catalog and any state of the application, \<open>changeMode(m)\<close>
  returns, and afterwards \<open>settings.tripMode\<close> is \<open>m\<close>, the document has mode \<open>m\<close>, none of
  its items is done, and its categories are those of the catalog entry for \<open>m\<close>.
\<close>

theorem changeMode_hard_reset:
  assumes "PRESETS m = Some p"
  shows "fst (changeMode uid m A) = Returns \<and>
         tripMode (settings (state (snd (changeMode uid m A)))) = m \<and>
         mode (data (state (snd (changeMode uid m A)))) = m \<and>
         list_all (\<lambda>i. \<not> item_done i) (items (data (state (snd (changeMode uid m A))))) \<and>
         cats (data (state (snd (changeMode uid m A)))) = p_cats p"
  by (simp add: changeMode_catalog [OF assms] materialize_not_done)

theorem changeMode_hard_reset_witness:
  "PRESETS (asc ''playa'') = Some playa \<and>
   fst (changeMode sampleUid (asc ''playa'') sampleApp) = Returns \<and>
   tripMode (settings (state (snd (changeMode sampleUid (asc ''playa'') sampleApp)))) = asc ''playa'' \<and>
   mode (data (state (snd (changeMode sampleUid (asc ''playa'') sampleApp)))) = asc ''playa'' \<and>
   list_all (\<lambda>i. \<not> item_done i) (items (data (state (snd (changeMode sampleUid (asc ''playa'') sampleApp))))) \<and>
   cats (data (state (snd (changeMode sampleUid (asc ''playa'') sampleApp)))) = p_cats playa"
proof -
  have h: "PRESETS (asc ''playa'') = Some playa"
    by (simp add: PRESETS_def asc_def)
  from changeMode_hard_reset [OF h, of sampleUid sampleApp] h show ?thesis by blast
qed

text \<open>
  C10, as stated: for every id that matches no item, \<open>toggleDone(id)\<close> commits a new state
  object, so that every listener is called and a write of the document is requested. It
  fails for an id that is blank: \<open>toggleDone\<close> returns before it touches the store. No item
  of the sample application has the empty id, and \<open>toggleDone('')\<close> leaves the state object,
  the calls of the listeners and the requested writes as they were.
\<close>

theorem toggleDone_blank_id_counterexample:
  "[] \<notin> item_id ` set (items (data (state sampleApp))) \<and>
   stateRef (toggleDone [] sampleApp) = stateRef sampleApp \<and>
   calls (toggleDone [] sampleApp) = calls sampleApp \<and>
   saveDataCalls (toggleDone [] sampleApp) = saveDataCalls sampleApp"
  by (simp add: toggleDone_def ensureString_def orEmpty_def trim_def sampleApp_def sampleDoc_def
      subscribe_def createStore_def asc_def)

text \<open>
  C10, amended: for every id whose cleaned form (trimmed, cut to 120 code units) is not empty
  and is the id of no item, \<open>toggleDone(id)\<close> leaves the state equal in value (the items and
  \<open>__completedOnce\<close> with it) and yet commits a new state object: every listener is called
  once with the old and the new object, and one write of the document is requested. For
  every id whose cleaned form is empty, \<open>toggleDone(id)\<close> leaves the application as it is:
  nothing is committed, no listener is called and no write is requested.
\<close>

theorem toggleDone_unknown_id:
  "(ensureString (Some i) 120 \<noteq> [] \<and>
    ensureString (Some i) 120 \<notin> item_id ` set (items (data (state A))) \<longrightarrow>
      state (toggleDone i A) = state A \<and>
      stateRef (toggleDone i A) \<noteq> stateRef A \<and>
      calls (toggleDone i A) =
        calls A @ map (\<lambda>fn. (fn, stateRef A, stateRef (toggleDone i A))) (listeners A) \<and>
      saveDataCalls (toggleDone i A) = Suc (saveDataCalls A)) \<and>
   (ensureString (Some i) 120 = [] \<longrightarrow> toggleDone i A = A)"
proof (rule conjI)
  show "ensureString (Some i) 120 \<noteq> [] \<and>
    ensureString (Some i) 120 \<notin> item_id ` set (items (data (state A))) \<longrightarrow>
      state (toggleDone i A) = state A \<and>
      stateRef (toggleDone i A) \<noteq> stateRef A \<and>
      calls (toggleDone i A) =
        calls A @ map (\<lambda>fn. (fn, stateRef A, stateRef (toggleDone i A))) (listeners A) \<and>
      saveDataCalls (toggleDone i A) = Suc (saveDataCalls A)"
  proof (rule impI)
    assume a: "ensureString (Some i) 120 \<noteq> [] \<and>
      ensureString (Some i) 120 \<notin> item_id ` set (items (data (state A)))"
    then have "find (\<lambda>x. item_id x = ensureString (Some i) 120) (items (data (state A))) = None"
      by (simp add: find_None_ids)
    with a show "state (toggleDone i A) = state A \<and>
        stateRef (toggleDone i A) \<noteq> stateRef A \<and>
        calls (toggleDone i A) =
          calls A @ map (\<lambda>fn. (fn, stateRef A, stateRef (toggleDone i A))) (listeners A) \<and>
        saveDataCalls (toggleDone i A) = Suc (saveDataCalls A)"
      by (simp add: toggleDone_def updateData_eq Let_def)
  qed
  show "ensureString (Some i) 120 = [] \<longrightarrow> toggleDone i A = A"
    by (simp add: toggleDone_def)
qed

theorem toggleDone_unknown_id_witness:
  "ensureString (Some (asc ''zz'')) 120 \<noteq> [] \<and>
   ensureString (Some (asc ''zz'')) 120 \<notin> item_id ` set (items (data (state sampleApp))) \<and>
   state (toggleDone (asc ''zz'') sampleApp) = state sampleApp \<and>
   stateRef (toggleDone (asc ''zz'') sampleApp) \<noteq> stateRef sampleApp \<and>
   calls (toggleDone (asc ''zz'') sampleApp) =
     calls sampleApp @ map (\<lambda>fn. (fn, stateRef sampleApp, stateRef (toggleDone (asc ''zz'') sampleApp))) (listeners sampleApp) \<and>
   saveDataCalls (toggleDone (asc ''zz'') sampleApp) = Suc (saveDataCalls sampleApp) \<and>
   ensureString (Some (asc ''  '')) 120 = [] \<and>
   toggleDone (asc ''  '') sampleApp = sampleApp"
proof -
  have h1: "ensureString (Some (asc ''zz'')) 120 \<noteq> []"
    by (simp add: ensureString_def orEmpty_def trim_def isSpace_def asc_def)
  have h2: "ensureString (Some (asc ''zz'')) 120 \<notin> item_id ` set (items (data (state sampleApp)))"
    by (simp add: ensureString_def orEmpty_def trim_def isSpace_def asc_def
        sampleApp_def sampleDoc_def subscribe_def createStore_def)
  have h3: "ensureString (Some (asc ''  '')) 120 = []"
    by (simp add: ensureString_def orEmpty_def trim_def isSpace_def asc_def)
  from toggleDone_unknown_id [of "asc ''zz''" sampleApp]
       toggleDone_unknown_id [of "asc ''  ''" sampleApp] h1 h2 h3
  show ?thesis by blast
qed

text \<open>
  C2, as stated: marking every item done through \<open>toggleDone\<close> on each item that is not done
  sets \<open>__completedOnce\<close> and adds one to the streak. \<open>toggleDone\<close> looks an item up by the
  trimmed id, and the repair keeps a stored id as it is: the stored document with the one
  item of id \<open>' x'\<close> is loaded with that id, toggling the pending item changes nothing, the
  item stays pending, \<open>__completedOnce\<close> stays false and the streak stays what it was.
\<close>

theorem completion_latch_rearm_counterexample:
  "loadData (parseOnly spacedText spacedValue) sampleUid ANothing (Raw spacedText) 0
     = (Some spacedDoc, 0) \<and>
   data (state spacedApp) = spacedDoc \<and>
   pending spacedApp = [asc '' x''] \<and>
   pending (completeAll spacedApp) = [asc '' x''] \<and>
   \<not> completedOnce (data (state (completeAll spacedApp))) \<and>
   streak (settings (state (completeAll spacedApp))) = streak (settings (state spacedApp))"
  by (simp add: eval_defs spacedText_def spacedValue_def spacedDoc_def spacedApp_def
      subscribe_def createStore_def completeAll_def pending_def onToggle_def toggleDone_def
      ensureString_def orEmpty_def updateData_eq runProgress_eq)

text \<open>
  C2, amended: start from a document with at least one item, with \<open>__completedOnce\<close> false
  and with a streak \<open>S\<close> such that \<open>0 \<le> S\<close> and \<open>S + 2 \<le> 2^53\<close>. Marking every item done
  with \<open>setAll(true)\<close> and running the completion check sets \<open>__completedOnce\<close> and makes the
  streak exactly \<open>S + 1\<close>. When the item ids are pairwise distinct, non-empty and equal to
  their cleaned form (trimmed, cut to 120 code units), so does toggling each item that is
  not done, the completion check run after each toggle as \<open>onToggle\<close> does; toggling any one
  item afterwards resets \<open>__completedOnce\<close> to false and leaves the streak \<open>S + 1\<close>;
  completing the list again in the same way sets \<open>__completedOnce\<close> again and makes the
  streak exactly \<open>S + 2\<close>.
\<close>

theorem completion_latch_rearm:
  assumes "items (data (state A)) \<noteq> []"
    and "\<not> completedOnce (data (state A))"
    and "0 \<le> streak (settings (state A))"
    and "streak (settings (state A)) + 2 \<le> 2 ^ 53"
  shows "completedOnce (data (state (runProgress (setAll True A)))) \<and>
         streak (settings (state (runProgress (setAll True A)))) = streak (settings (state A)) + 1 \<and>
         (cleanIds (map item_id (items (data (state A)))) \<and>
          x \<in> set (map item_id (items (data (state A)))) \<longrightarrow>
            completedOnce (data (state (completeAll A))) \<and>
            streak (settings (state (completeAll A))) = streak (settings (state A)) + 1 \<and>
            \<not> completedOnce (data (state (onToggle x (completeAll A)))) \<and>
            streak (settings (state (onToggle x (completeAll A)))) = streak (settings (state A)) + 1 \<and>
            completedOnce (data (state (completeAll (onToggle x (completeAll A))))) \<and>
            streak (settings (state (completeAll (onToggle x (completeAll A)))))
              = streak (settings (state A)) + 2)"
proof (intro conjI impI)
  from assms(3,4) have p1: "plusOne (streak (settings (state A))) = streak (settings (state A)) + 1"
    by (intro plusOne_exact) simp_all
  from assms(3,4) have p2: "plusOne (streak (settings (state A)) + 1) = streak (settings (state A)) + 2"
    using plusOne_exact [of "streak (settings (state A)) + 1"] by simp
  note sa = setAll_then_check [OF assms(1)]
  show "completedOnce (data (state (runProgress (setAll True A))))"
    by (rule sa(1))
  show "streak (settings (state (runProgress (setAll True A)))) = streak (settings (state A)) + 1"
    by (simp add: sa(2) p1)
  assume c: "cleanIds (map item_id (items (data (state A)))) \<and>
          x \<in> set (map item_id (items (data (state A))))"
  let ?A1 = "completeAll A"
  let ?A2 = "onToggle x ?A1"
  from c have cl: "cleanIds (map item_id (items (data (state A))))"
    and xin: "x \<in> set (map item_id (items (data (state A))))"
    by simp_all
  note f1 = completeAll_facts [OF assms(1,2) cl]
  from xin f1(1) have mem: "x \<in> item_id ` set (items (data (state ?A1)))"
    by (metis set_map)
  from cl xin have cx: "ensureString (Some x) 120 = x" "x \<noteq> []"
    by (auto simp add: cleanIds_def list_all_iff)
  note t = onToggle_found [OF cx mem]
  have nd: "\<not> list_all item_done (toggleFirst x (items (data (state ?A1))))"
    using mem f1(2) by (rule toggle_undoes_done)
  have l2: "\<not> completedOnce (data (state ?A2))"
    using nd by (simp add: t(2))
  have s2: "streak (settings (state ?A2)) = streak (settings (state A)) + 1"
    using nd by (simp add: t(3) f1(4) p1)
  have ids2: "map item_id (items (data (state ?A2))) = map item_id (items (data (state A)))"
    by (simp add: t(1) toggleFirst_ids f1(1))
  with assms(1) have ne2: "items (data (state ?A2)) \<noteq> []"
    by (metis map_is_Nil_conv)
  have cl2: "cleanIds (map item_id (items (data (state ?A2))))"
    using cl by (simp add: ids2)
  note f3 = completeAll_facts [OF ne2 l2 cl2]
  show "completedOnce (data (state ?A1))" by (rule f1(3))
  show "streak (settings (state ?A1)) = streak (settings (state A)) + 1"
    by (simp add: f1(4) p1)
  show "\<not> completedOnce (data (state ?A2))" by (rule l2)
  show "streak (settings (state ?A2)) = streak (settings (state A)) + 1" by (rule s2)
  show "completedOnce (data (state (completeAll ?A2)))" by (rule f3(3))
  show "streak (settings (state (completeAll ?A2))) = streak (settings (state A)) + 2"
    by (simp add: f3(4) s2 p2)
qed

theorem completion_latch_rearm_witness:
  "items (data (state sampleApp)) \<noteq> [] \<and>
   \<not> completedOnce (data (state sampleApp)) \<and>
   0 \<le> streak (settings (state sampleApp)) \<and>
   streak (settings (state sampleApp)) + 2 \<le> 2 ^ 53 \<and>
   cleanIds (map item_id (items (data (state sampleApp)))) \<and>
   asc ''p1'' \<in> set (map item_id (items (data (state sampleApp)))) \<and>
   completedOnce (data (state (runProgress (setAll True sampleApp)))) \<and>
   streak (settings (state (runProgress (setAll True sampleApp)))) = streak (settings (state sampleApp)) + 1 \<and>
   completedOnce (data (state (completeAll sampleApp))) \<and>
   streak (settings (state (completeAll sampleApp))) = streak (settings (state sampleApp)) + 1 \<and>
   \<not> completedOnce (data (state (onToggle (asc ''p1'') (completeAll sampleApp)))) \<and>
   streak (settings (state (onToggle (asc ''p1'') (completeAll sampleApp)))) = streak (settings (state sampleApp)) + 1 \<and>
   completedOnce (data (state (completeAll (onToggle (asc ''p1'') (completeAll sampleApp))))) \<and>
   streak (settings (state (completeAll (onToggle (asc ''p1'') (completeAll sampleApp))))) = streak (settings (state sampleApp)) + 2"
proof -
  have s: "state sampleApp = \<lparr>settings = DEFAULT_SETTINGS\<lparr>tripMode := asc ''viaje''\<rparr>, data = sampleDoc, activeCat = asc ''all''\<rparr>"
    by (simp add: sampleApp_def subscribe_def createStore_def)
  have h1: "items (data (state sampleApp)) \<noteq> []"
    by (simp add: s sampleDoc_def)
  have h2: "\<not> completedOnce (data (state sampleApp))"
    by (simp add: s sampleDoc_def)
  have h3: "0 \<le> streak (settings (state sampleApp))"
    by (simp add: s DEFAULT_SETTINGS_def)
  have h4: "streak (settings (state sampleApp)) + 2 \<le> 2 ^ 53"
    by (simp add: s DEFAULT_SETTINGS_def)
  have h5: "cleanIds (map item_id (items (data (state sampleApp))))"
    by (simp add: s sampleDoc_def cleanIds_def ensureString_def orEmpty_def trim_def isSpace_def asc_def)
  have h6: "asc ''p1'' \<in> set (map item_id (items (data (state sampleApp))))"
    by (simp add: s sampleDoc_def)
  from completion_latch_rearm [OF h1 h2 h3 h4, of "asc ''p1''"] h1 h2 h3 h4 h5 h6
  show ?thesis by blast
qed


section \<open>Claims about the documents\<close>

text \<open>
  C8, as stated: in every document that \<open>loadData\<close> returns the category ids are pairwise
  distinct. The repair converts the stored categories one by one and never compares their
  ids: a stored document with two categories of id \<open>a\<close> is loaded with both.
\<close>

theorem category_ids_counterexample:
  "map_option (\<lambda>D. map cat_id (cats D))
     (fst (loadData (parseOnly twoCatsText twoCats) sampleUid ANothing (Raw twoCatsText) 0))
   = Some [asc ''a'', asc ''a'']"
  by (simp add: loadData_def loadTry_def parseOnly_def twoCatsText_def twoCats_def resolveMode_def
      DEFAULT_SETTINGS_def repairData_def modeOf_def orElse_def catsField_def itemsField_def
      repairCat_def emojiOf_def trim_def isSpace_def asc_def Let_def)

text \<open>
  C8, amended: in every document that \<open>loadData\<close> returns, every category id is a
  non-empty string with no white space at either end. The category ids are pairwise
  distinct in a document made from a preset.
\<close>

theorem category_ids:
  "(loadData parse uid a st k = (Some D, k') \<longrightarrow>
      list_all (\<lambda>c. cat_id c \<noteq> [] \<and> trim (cat_id c) = cat_id c) (cats D)) \<and>
   (newPreset uid m k = (Some D, k') \<longrightarrow> distinct (map cat_id (cats D)))"
proof (intro conjI impI)
  assume "loadData parse uid a st k = (Some D, k')"
  then show "list_all (\<lambda>c. cat_id c \<noteq> [] \<and> trim (cat_id c) = cat_id c) (cats D)"
  proof (cases rule: loadData_Some)
    case (preset m k1)
    then show ?thesis
      by (auto elim!: newPreset_Some dest!: presetFor_Entry simp add: preset_cat_ids(1))
  next
    case (stored raw d)
    from stored(3) show ?thesis
    proof (cases rule: repairData_Some)
      case (preset m k1)
      then show ?thesis
        by (auto elim!: newPreset_Some dest!: presetFor_Entry simp add: preset_cat_ids(1))
    next
      case (repaired m cs "is" k1)
      then show ?thesis by (simp add: catsField_ids)
    qed
  qed
next
  assume "newPreset uid m k = (Some D, k')"
  then show "distinct (map cat_id (cats D))"
    by (auto elim!: newPreset_Some dest!: presetFor_Entry simp add: preset_cat_ids(2))
qed

theorem category_ids_witness:
  "loadData (parseOnly storedText storedValue) sampleUid ANothing (Raw storedText) 0 = (Some sampleDoc, 0) \<and>
   list_all (\<lambda>c. cat_id c \<noteq> [] \<and> trim (cat_id c) = cat_id c) (cats sampleDoc) \<and>
   newPreset sampleUid (asc ''frio'') 0 =
     (Some \<lparr>version = 2, mode = asc ''frio'', cats = p_cats frio,
            items = materialize sampleUid (p_items frio) 0, completedOnce = False\<rparr>, 5) \<and>
   distinct (map cat_id (cats \<lparr>version = 2, mode = asc ''frio'', cats = p_cats frio,
            items = materialize sampleUid (p_items frio) 0, completedOnce = False\<rparr>))"
proof -
  have h1: "loadData (parseOnly storedText storedValue) sampleUid ANothing (Raw storedText) 0 = (Some sampleDoc, 0)"
    by (rule load_sample)
  have h2: "newPreset sampleUid (asc ''frio'') 0 =
     (Some \<lparr>version = 2, mode = asc ''frio'', cats = p_cats frio,
            items = materialize sampleUid (p_items frio) 0, completedOnce = False\<rparr>, 5)"
    by (simp add: newPreset_def presetFor_def PRESETS_def asc_def frio_def)
  from category_ids [of "parseOnly storedText storedValue" sampleUid ANothing "Raw storedText" 0 sampleDoc 0]
       category_ids [of _ sampleUid _ _ 0 "\<lparr>version = 2, mode = asc ''frio'', cats = p_cats frio,
            items = materialize sampleUid (p_items frio) 0, completedOnce = False\<rparr>" 5 "asc ''frio''"]
       h1 h2
  show ?thesis by blast
qed

text \<open>
  C1, as stated: after every action each item's category is the id of a category of the
  document. \<open>createItem\<close> stores the category it is given, or \<open>otros\<close> when it is given
  none, and does not look at the categories: the sample document has the one category
  \<open>docs\<close>, and an item created without a category gets \<open>otros\<close>.
\<close>

theorem category_references_counterexample:
  "catsKnown (data (state sampleApp)) \<and>
   \<not> catsKnown (data (state (snd (createItem sampleUid
        \<lparr>n_name = Some (asc ''Visa''), n_emoji = None, n_cat = None, n_uid = None\<rparr> sampleApp))))"
  by (simp add: catsKnown_def sampleApp_def sampleDoc_def subscribe_def createStore_def
      createItem_def cleanCatOf_def ensureString_def orEmpty_def trim_def isSpace_def asc_def updateData_eq Let_def)

text \<open>
  C1, amended: each item's category is the id of a category of the document in every
  document that \<open>loadData\<close> returns and after \<open>wipeAll\<close>; \<open>toggleDone\<close>, \<open>deleteItem\<close>,
  \<open>resetChecks\<close>, \<open>setAll\<close> and \<open>changeMode\<close> keep the property; \<open>createItem\<close> keeps it when
  the name is blank (nothing is created) or when the cleaned category (trimmed, cut to 40
  code units, \<open>otros\<close> when that is empty) is the id of a category of the document.
\<close>

theorem category_references:
  "(loadData parse uid a st k = (Some D, k') \<longrightarrow> catsKnown D) \<and>
   (catsKnown (data (state A)) \<longrightarrow>
      catsKnown (data (state (toggleDone i A))) \<and>
      catsKnown (data (state (deleteItem i A))) \<and>
      catsKnown (data (state (resetChecks A))) \<and>
      catsKnown (data (state (setAll b A))) \<and>
      catsKnown (data (state (snd (changeMode uid m A)))) \<and>
      (trim (orEmpty (n_name n)) = [] \<or> cleanCatOf n \<in> set (map cat_id (cats (data (state A)))) \<longrightarrow>
         catsKnown (data (state (snd (createItem uid n A)))))) \<and>
   catsKnown (data (state (snd (wipeAll uid A))))"
proof (intro conjI impI)
  assume "loadData parse uid a st k = (Some D, k')"
  then show "catsKnown D" by (rule loadData_catsKnown)
next
  assume k: "catsKnown (data (state A))"
  from k toggleDone_data [of i A] show "catsKnown (data (state (toggleDone i A)))"
    by (auto simp add: catsKnown_cats toggleFirst_cats)
  from k deleteItem_data [of i A] show "catsKnown (data (state (deleteItem i A)))"
    by (auto simp add: catsKnown_def list_all_iff)
  from k show "catsKnown (data (state (resetChecks A)))"
    by (simp add: resetChecks_def updateData_eq catsKnown_cats comp_def)
  from k show "catsKnown (data (state (setAll b A)))"
    by (simp add: setAll_def updateData_eq catsKnown_cats comp_def)
  from k changeMode_data [of uid m A] show "catsKnown (data (state (snd (changeMode uid m A))))"
    by (auto intro: newPreset_catsKnown)
  assume "trim (orEmpty (n_name n)) = [] \<or> cleanCatOf n \<in> set (map cat_id (cats (data (state A))))"
  with k show "catsKnown (data (state (snd (createItem uid n A))))"
    by (auto simp add: createItem_def ensureString_def updateData_eq Let_def catsKnown_def
        split: option.splits)
next
  from wipeAll_data [of uid A] show "catsKnown (data (state (snd (wipeAll uid A))))"
    by (auto intro: newPreset_catsKnown)
qed

theorem category_references_witness:
  "loadData (parseOnly storedText storedValue) sampleUid ANothing (Raw storedText) 0 = (Some sampleDoc, 0) \<and>
   catsKnown sampleDoc \<and>
   catsKnown (data (state sampleApp)) \<and>
   catsKnown (data (state (toggleDone (asc ''p2'') sampleApp))) \<and>
   catsKnown (data (state (deleteItem (asc ''p2'') sampleApp))) \<and>
   catsKnown (data (state (resetChecks sampleApp))) \<and>
   catsKnown (data (state (setAll True sampleApp))) \<and>
   catsKnown (data (state (snd (changeMode sampleUid (asc ''playa'') sampleApp)))) \<and>
   cleanCatOf \<lparr>n_name = Some (asc ''Visa''), n_emoji = None, n_cat = Some (asc ''docs''), n_uid = None\<rparr>
     \<in> set (map cat_id (cats (data (state sampleApp)))) \<and>
   catsKnown (data (state (snd (createItem sampleUid
     \<lparr>n_name = Some (asc ''Visa''), n_emoji = None, n_cat = Some (asc ''docs''), n_uid = None\<rparr> sampleApp)))) \<and>
   catsKnown (data (state (snd (wipeAll sampleUid sampleApp))))"
proof -
  have h1: "loadData (parseOnly storedText storedValue) sampleUid ANothing (Raw storedText) 0 = (Some sampleDoc, 0)"
    by (rule load_sample)
  have s: "data (state sampleApp) = sampleDoc"
    by (simp add: sampleApp_def subscribe_def createStore_def)
  have h2: "catsKnown (data (state sampleApp))"
    by (simp add: s sampleDoc_def catsKnown_def)
  have h3: "cleanCatOf \<lparr>n_name = Some (asc ''Visa''), n_emoji = None, n_cat = Some (asc ''docs''), n_uid = None\<rparr>
     \<in> set (map cat_id (cats (data (state sampleApp))))"
    by (simp add: s sampleDoc_def cleanCatOf_def ensureString_def orEmpty_def trim_def isSpace_def asc_def)
  from category_references [of "parseOnly storedText storedValue" sampleUid ANothing "Raw storedText" 0 sampleDoc 0
         sampleApp "asc ''p2''" True "asc ''playa''"
         "\<lparr>n_name = Some (asc ''Visa''), n_emoji = None, n_cat = Some (asc ''docs''), n_uid = None\<rparr>"]
       h1 h2 h3
  show ?thesis by (simp add: s)
qed

text \<open>
  C7, as stated: after every action the item ids are pairwise distinct. \<open>createItem\<close> takes
  the id from the generator that its caller passes, when there is one, and does not compare
  it with the ids of the document: with a generator that returns \<open>p1\<close>, the id of an item of
  the sample document, the new item is the second one with that id.
\<close>

theorem item_ids_distinct_counterexample:
  "distinct (itemIds (data (state sampleApp))) \<and>
   \<not> distinct (itemIds (data (state (snd (createItem sampleUid
        \<lparr>n_name = Some (asc ''Visa''), n_emoji = None, n_cat = Some (asc ''docs''),
         n_uid = Some (asc ''p1'')\<rparr> sampleApp)))))"
  by (simp add: createItem_data itemIds_def sampleApp_def sampleDoc_def subscribe_def createStore_def
      orEmpty_def trim_def isSpace_def asc_def)

text \<open>
  C7, amended: the item ids are pairwise distinct in every document that \<open>loadData\<close> returns,
  provided the id generator never returns the same id twice and never returns an id that a
  stored item carries. \<open>toggleDone\<close>, \<open>deleteItem\<close>, \<open>resetChecks\<close> and \<open>setAll\<close> keep the
  item ids pairwise distinct; \<open>changeMode\<close> keeps them so and \<open>wipeAll\<close> makes them so,
  provided the generator never returns the same id twice; \<open>createItem\<close> keeps them so when the
  name is blank (nothing is created) or the new id (the one the caller's generator returns,
  otherwise the next one drawn) is not the id of an item of the document.
\<close>

theorem item_ids_distinct:
  "(freshIds uid (storedItemIds parse st) \<and> loadData parse uid a st k = (Some D, k')
      \<longrightarrow> distinct (itemIds D)) \<and>
   (distinct (itemIds (data (state A))) \<longrightarrow>
      distinct (itemIds (data (state (toggleDone i A)))) \<and>
      distinct (itemIds (data (state (deleteItem i A)))) \<and>
      distinct (itemIds (data (state (resetChecks A)))) \<and>
      distinct (itemIds (data (state (setAll b A)))) \<and>
      (inj uid \<longrightarrow> distinct (itemIds (data (state (snd (changeMode uid m A)))))) \<and>
      (trim (orEmpty (n_name n)) = [] \<or>
       (case n_uid n of Some i \<Rightarrow> i | None \<Rightarrow> uid (drawn A)) \<notin> set (itemIds (data (state A)))
         \<longrightarrow> distinct (itemIds (data (state (snd (createItem uid n A))))))) \<and>
   (inj uid \<longrightarrow> distinct (itemIds (data (state (snd (wipeAll uid A))))))"
proof (intro conjI impI)
  assume "freshIds uid (storedItemIds parse st) \<and> loadData parse uid a st k = (Some D, k')"
  then show "distinct (itemIds D)"
    by (auto intro: loadData_distinct)
next
  assume d: "distinct (itemIds (data (state A)))"
  from d toggleDone_data [of i A] show "distinct (itemIds (data (state (toggleDone i A))))"
    by (auto simp add: itemIds_def toggleFirst_ids)
  from d deleteItem_data [of i A] show "distinct (itemIds (data (state (deleteItem i A))))"
    by (auto simp add: itemIds_def distinct_map_filter)
  from d show "distinct (itemIds (data (state (resetChecks A))))"
    by (simp add: resetChecks_def updateData_eq itemIds_def comp_def)
  from d show "distinct (itemIds (data (state (setAll b A))))"
    by (simp add: setAll_def updateData_eq itemIds_def comp_def)
  {
    assume "inj uid"
    with d changeMode_data [of uid m A]
    show "distinct (itemIds (data (state (snd (changeMode uid m A)))))"
      by (auto intro: newPreset_distinct)
  }
  assume "trim (orEmpty (n_name n)) = [] \<or>
     (case n_uid n of Some i \<Rightarrow> i | None \<Rightarrow> uid (drawn A)) \<notin> set (itemIds (data (state A)))"
  with d show "distinct (itemIds (data (state (snd (createItem uid n A)))))"
    by (auto simp add: createItem_data itemIds_def)
next
  assume "inj uid"
  with wipeAll_data [of uid A] show "distinct (itemIds (data (state (snd (wipeAll uid A)))))"
    by (auto intro: newPreset_distinct)
qed

theorem item_ids_distinct_witness:
  "freshIds sampleUid (storedItemIds (parseOnly dupText dupValue) (Raw dupText)) \<and>
   loadData (parseOnly dupText dupValue) sampleUid ANothing (Raw dupText) 0 = (Some dupDoc, 2) \<and>
   distinct (itemIds dupDoc) \<and>
   distinct (itemIds (data (state sampleApp))) \<and>
   distinct (itemIds (data (state (toggleDone (asc ''p2'') sampleApp)))) \<and>
   distinct (itemIds (data (state (deleteItem (asc ''p2'') sampleApp)))) \<and>
   distinct (itemIds (data (state (resetChecks sampleApp)))) \<and>
   distinct (itemIds (data (state (setAll True sampleApp)))) \<and>
   inj sampleUid \<and>
   distinct (itemIds (data (state (snd (changeMode sampleUid (asc ''playa'') sampleApp))))) \<and>
   (case n_uid \<lparr>n_name = Some (asc ''Visa''), n_emoji = None, n_cat = Some (asc ''docs''), n_uid = None\<rparr> of
      Some i \<Rightarrow> i | None \<Rightarrow> sampleUid (drawn sampleApp))
     \<notin> set (itemIds (data (state sampleApp))) \<and>
   distinct (itemIds (data (state (snd (createItem sampleUid
     \<lparr>n_name = Some (asc ''Visa''), n_emoji = None, n_cat = Some (asc ''docs''), n_uid = None\<rparr> sampleApp))))) \<and>
   distinct (itemIds (data (state (snd (wipeAll sampleUid sampleApp)))))"
proof -
  have s: "data (state sampleApp) = sampleDoc" "drawn sampleApp = 0"
    by (simp_all add: sampleApp_def subscribe_def createStore_def)
  have h1: "freshIds sampleUid (storedItemIds (parseOnly dupText dupValue) (Raw dupText))"
    by (rule fresh_sampleUid_dup)
  have h2: "loadData (parseOnly dupText dupValue) sampleUid ANothing (Raw dupText) 0 = (Some dupDoc, 2)"
    by (rule load_dup)
  have h3: "distinct (itemIds (data (state sampleApp)))"
    by (simp add: s sampleDoc_def itemIds_def asc_def)
  have h4: "inj sampleUid"
    by (rule inj_sampleUid)
  have h5: "(case n_uid \<lparr>n_name = Some (asc ''Visa''), n_emoji = None, n_cat = Some (asc ''docs''), n_uid = None\<rparr> of
      Some i \<Rightarrow> i | None \<Rightarrow> sampleUid (drawn sampleApp))
     \<notin> set (itemIds (data (state sampleApp)))"
    by (simp add: s sampleDoc_def itemIds_def sampleUid_def asc_def)
  from item_ids_distinct [of sampleUid "parseOnly dupText dupValue" "Raw dupText" ANothing 0 dupDoc 2
         sampleApp "asc ''p2''" True "asc ''playa''"
         "\<lparr>n_name = Some (asc ''Visa''), n_emoji = None, n_cat = Some (asc ''docs''), n_uid = None\<rparr>"]
       h1 h2 h3 h4 h5
  show ?thesis by blast
qed




text \<open>
  C3, as stated: repairing what the repair returns gives the same document, for every
  value and fallback mode. A truthy field is converted with \<open>String\<close>, and the string of
  the empty array is empty, which is falsy the second time. For the stored value
  \<open>{"cats":[{"id":"a","name":"A","emoji":[]}],"items":[]}\<close> the first repair gives the
  category the emoji \<open>''\<close> and the second gives it \<open>null\<close>. An item whose name is \<open>[]\<close>
  gets the name \<open>''\<close> and then \<open>Sin nombre\<close>. With the empty fallback mode, the repair of
  \<open>null\<close> returns the preset with mode \<open>''\<close>, and the repair of that gives it the mode
  \<open>salida\<close>.
\<close>

theorem repair_idempotent_counterexample:
  "repairData sampleUid emptyEmojiValue (asc ''salida'') 0 = (Some onceRepaired, 0) \<and>
   repairData sampleUid (docJs onceRepaired) (asc ''salida'') 0 = (Some twiceRepaired, 0) \<and>
   onceRepaired \<noteq> twiceRepaired \<and>
   repairData sampleUid emptyNameValue (asc ''salida'') 0 = (Some emptyNameDoc, 0) \<and>
   map_option (\<lambda>D. map item_name (items D))
     (fst (repairData sampleUid (docJs emptyNameDoc) (asc ''salida'') 0)) = Some [asc ''Sin nombre''] \<and>
   repairData sampleUid JNull [] 0 = (Some blankModeDoc, 9) \<and>
   mode blankModeDoc = [] \<and>
   map_option mode (fst (repairData sampleUid (docJs blankModeDoc) [] 9)) = Some (asc ''salida'')"
  by (simp add: eval_defs emptyEmojiValue_def onceRepaired_def twiceRepaired_def docJs_def
      catJs_def itemJs_def emojiJs_def emptyNameValue_def emptyNameDoc_def blankModeDoc_def
      newPreset_def presetFor_def PRESETS_def objectPrototypeKeys_def salida_def C_def T_def
      sampleUid_def)

text \<open>
  C3, amended: whenever \<open>repairData(d, m)\<close> returns a document, repairing that document
  with the same fallback mode returns it again and draws no id, provided that \<open>m\<close> is not
  empty, that the mode of \<open>d\<close>, the emoji of every category of \<open>d\<close> and the name and the
  emoji of every item of \<open>d\<close> are each falsy or do not convert to the empty string, and that the
  id generator never returns the empty id, never the same id twice and never an id that an
  item of \<open>d\<close> carries.
\<close>

theorem repair_idempotent:
  assumes "repairData uid d fm k = (Some D, k')"
    and "fm \<noteq> []" and "plainFields d"
    and "freshIds uid (storedIds d)" and "[] \<notin> range uid"
  shows "repairData uid (docJs D) fm k' = (Some D, k')"
  using assms by (intro repair_fixed repairData_settles)

theorem repair_idempotent_witness:
  "repairData sampleUid dupValue (asc ''salida'') 0 = (Some dupDoc, 2) \<and>
   asc ''salida'' \<noteq> [] \<and> plainFields dupValue \<and>
   freshIds sampleUid (storedIds dupValue) \<and> [] \<notin> range sampleUid \<and>
   repairData sampleUid (docJs dupDoc) (asc ''salida'') 2 = (Some dupDoc, 2)"
proof -
  have h: "asc ''salida'' \<noteq> []" by simp
  from repair_idempotent [OF repair_dup h plain_dup fresh_dupValue sampleUid_nonempty]
       repair_dup h plain_dup fresh_dupValue sampleUid_nonempty
  show ?thesis by blast
qed

end
